theory Spec2Isabelle
  imports Complex_Main "HOL-Library.Word" "HOL-Library.Sublist"
begin

section \<open>JavaScript strings\<close>

text \<open>
  The program is the GitHub Action \<open>src/.github/actions/accessibility-agent/src/index.ts\<close>.
  A JavaScript string is a sequence of UTF-16 code units; \<open>length\<close>, \<open>indexOf\<close>,
  \<open>substring\<close> and indexing count code units. A string of the program is therefore a list of
  16-bit words. \<open>js\<close> turns an Isabelle string literal (ASCII) into such a list and \<open>cu\<close> a
  character into one code unit.
\<close>

type_synonym code_unit = "16 word"
type_synonym jsstring = "code_unit list"

definition js :: "string \<Rightarrow> jsstring" where
  "js s = map of_char s"

definition cu :: "char \<Rightarrow> code_unit" where
  "cu c = of_char c"

text \<open>\<open>s.startsWith(t)\<close> and \<open>s.endsWith(t)\<close>.\<close>

definition startsWith :: "jsstring \<Rightarrow> jsstring \<Rightarrow> bool" where
  "startsWith s t = prefix t s"

definition endsWith :: "jsstring \<Rightarrow> jsstring \<Rightarrow> bool" where
  "endsWith s t = suffix t s"

text \<open>
  \<open>s.trim()\<close> removes the code units of ECMAScript's WhiteSpace and LineTerminator
  productions from both ends.
\<close>

definition is_space :: "code_unit \<Rightarrow> bool" where
  "is_space c =
     (c = 0x09 \<or> c = 0x0A \<or> c = 0x0B \<or> c = 0x0C \<or> c = 0x0D \<or> c = 0x20 \<or> c = 0xA0
      \<or> c = 0x1680 \<or> (0x2000 \<le> c \<and> c \<le> 0x200A) \<or> c = 0x2028 \<or> c = 0x2029
      \<or> c = 0x202F \<or> c = 0x205F \<or> c = 0x3000 \<or> c = 0xFEFF)"

definition trim :: "jsstring \<Rightarrow> jsstring" where
  "trim s = rev (dropWhile is_space (rev (dropWhile is_space s)))"

text \<open>
  \<open>s.split(sep)\<close> for a separator of one code unit: the pieces between the separators, in
  order; the empty string gives one empty piece. \<open>s.split(sep, 2)\<close> is \<open>take 2\<close> of it.
\<close>

fun split_on :: "code_unit \<Rightarrow> jsstring \<Rightarrow> jsstring list" where
  "split_on sep [] = [[]]"
| "split_on sep (c # cs) =
     (if c = sep then [] # split_on sep cs
      else (case split_on sep cs of
              p # ps \<Rightarrow> (c # p) # ps
            | [] \<Rightarrow> [[c]]))"

text \<open>
  \<open>s.indexOf(t)\<close>: the index of the first occurrence of \<open>t\<close>; the source's \<open>-1\<close> is
  \<open>None\<close>.
\<close>

fun indexOf_from :: "jsstring \<Rightarrow> jsstring \<Rightarrow> nat \<Rightarrow> nat option" where
  "indexOf_from [] t i = (if t = [] then Some i else None)"
| "indexOf_from (c # cs) t i =
     (if prefix t (c # cs) then Some i else indexOf_from cs t (Suc i))"

definition indexOf :: "jsstring \<Rightarrow> jsstring \<Rightarrow> nat option" where
  "indexOf s t = indexOf_from s t 0"

text \<open>\<open>n.toString()\<close> and \<open>`${n}`\<close> for a non-negative integer \<open>n\<close>: its decimal digits.\<close>

fun show_nat :: "nat \<Rightarrow> jsstring" where
  "show_nat n =
     (if n < 10 then [of_nat (48 + n)] else show_nat (n div 10) @ [of_nat (48 + n mod 10)])"

declare show_nat.simps [simp del]

section \<open>JavaScript values and errors\<close>

text \<open>
  The values that \<open>JSON.parse\<close> produces, and \<open>undefined\<close> for a property that is absent.
  A number is kept as the rational its text denotes; the double that JavaScript stores is
  that rational rounded to the nearest double, which is zero exactly when the magnitude is
  at most \<open>1 / 2 ^ 1075\<close> (half of the least positive double, the tie going to the even
  significand 0). An object is the list of its members in source order; a later duplicate
  key overrides an earlier one.
\<close>

datatype jsvalue =
    JUndefined
  | JNull
  | JBool bool
  | JNum rat
  | JStr jsstring
  | JArr "jsvalue list"
  | JObj "(jsstring \<times> jsvalue) list"

text \<open>
  The exceptions of the program: the built-in \<open>TypeError\<close> and \<open>SyntaxError\<close> (their
  message texts are the engine's), and \<open>new Error(message)\<close>.
\<close>

datatype js_error = TypeError | SyntaxError | Error jsstring

definition double_is_zero :: "rat \<Rightarrow> bool" where
  "double_is_zero q = (\<bar>q\<bar> \<le> 1 / 2 ^ 1075)"

text \<open>ToBoolean, and \<open>a || b\<close>.\<close>

fun truthy :: "jsvalue \<Rightarrow> bool" where
  "truthy JUndefined = False"
| "truthy JNull = False"
| "truthy (JBool b) = b"
| "truthy (JNum q) = (\<not> double_is_zero q)"
| "truthy (JStr s) = (s \<noteq> [])"
| "truthy (JArr xs) = True"
| "truthy (JObj kvs) = True"

definition js_or :: "jsvalue \<Rightarrow> jsvalue \<Rightarrow> jsvalue" where
  "js_or a b = (if truthy a then a else b)"

text \<open>
  \<open>v.k\<close> for the property names this program reads (\<open>length\<close>, \<open>url\<close>, \<open>goal\<close>,
  \<open>success\<close>, \<open>reason\<close>, \<open>error\<close>, \<open>steps\<close>, \<open>violations\<close>, \<open>testRunId\<close>). Reading a
  property of \<open>null\<close> or \<open>undefined\<close> throws a TypeError. Of these names the built-in
  prototypes define only \<open>length\<close>, on arrays and strings.
\<close>

fun js_get :: "jsvalue \<Rightarrow> jsstring \<Rightarrow> js_error + jsvalue" where
  "js_get JUndefined k = Inl TypeError"
| "js_get JNull k = Inl TypeError"
| "js_get (JObj kvs) k = Inr (case map_of (rev kvs) k of None \<Rightarrow> JUndefined | Some v \<Rightarrow> v)"
| "js_get (JArr xs) k = Inr (if k = js ''length'' then JNum (of_nat (length xs)) else JUndefined)"
| "js_get (JStr s) k = Inr (if k = js ''length'' then JNum (of_nat (length s)) else JUndefined)"
| "js_get (JBool b) k = Inr JUndefined"
| "js_get (JNum q) k = Inr JUndefined"

text \<open>A property read in a place where the value is known not to be \<open>null\<close>.\<close>

definition field :: "jsvalue \<Rightarrow> jsstring \<Rightarrow> jsvalue" where
  "field v k = (case js_get v k of Inl e \<Rightarrow> JUndefined | Inr x \<Rightarrow> x)"

text \<open>\<open>xs.map(f)\<close> with a callback that may throw: the first exception ends the call.\<close>

fun map_throwing :: "('a \<Rightarrow> js_error + 'b) \<Rightarrow> 'a list \<Rightarrow> js_error + 'b list" where
  "map_throwing f [] = Inr []"
| "map_throwing f (x # xs) =
     (case f x of
        Inl e \<Rightarrow> Inl e
      | Inr y \<Rightarrow> (case map_throwing f xs of Inl e \<Rightarrow> Inl e | Inr ys \<Rightarrow> Inr (y # ys)))"

section \<open>JSON.parse\<close>

text \<open>
  \<open>JSON.parse\<close> is a built-in of the platform. It is modelled by a recursive-descent parser
  of the JSON grammar (ECMA-404): \<open>None\<close> is the SyntaxError. Each parser returns the
  value it read and the rest of the input.
\<close>

definition json_ws :: "code_unit \<Rightarrow> bool" where
  "json_ws c = (c = 0x20 \<or> c = 0x09 \<or> c = 0x0A \<or> c = 0x0D)"

definition skip_ws :: "jsstring \<Rightarrow> jsstring" where
  "skip_ws s = dropWhile json_ws s"

definition is_digit :: "code_unit \<Rightarrow> bool" where
  "is_digit c = (0x30 \<le> c \<and> c \<le> 0x39)"

definition digit_val :: "code_unit \<Rightarrow> nat" where
  "digit_val c = unat c - 48"

definition digits_val :: "jsstring \<Rightarrow> nat" where
  "digits_val ds = foldl (\<lambda>a d. 10 * a + digit_val d) 0 ds"

definition hex_val :: "code_unit \<Rightarrow> nat option" where
  "hex_val c =
     (if 0x30 \<le> c \<and> c \<le> 0x39 then Some (unat c - 0x30)
      else if 0x41 \<le> c \<and> c \<le> 0x46 then Some (unat c - 0x41 + 10)
      else if 0x61 \<le> c \<and> c \<le> 0x66 then Some (unat c - 0x61 + 10)
      else None)"

definition hex4 :: "code_unit \<Rightarrow> code_unit \<Rightarrow> code_unit \<Rightarrow> code_unit \<Rightarrow> code_unit option" where
  "hex4 a b c d =
     (case (hex_val a, hex_val b, hex_val c, hex_val d) of
        (Some h3, Some h2, Some h1, Some h0) \<Rightarrow>
          Some (of_nat (((h3 * 16 + h2) * 16 + h1) * 16 + h0))
      | _ \<Rightarrow> None)"

text \<open>The character after a backslash: a quote, a backslash, a slash, or one of b f n r t.\<close>

definition escape_char :: "code_unit \<Rightarrow> code_unit option" where
  "escape_char e =
     (if e = 0x22 then Some 0x22
      else if e = 0x5C then Some 0x5C
      else if e = cu CHR ''/'' then Some 0x2F
      else if e = cu CHR ''b'' then Some 0x08
      else if e = cu CHR ''f'' then Some 0x0C
      else if e = cu CHR ''n'' then Some 0x0A
      else if e = cu CHR ''r'' then Some 0x0D
      else if e = cu CHR ''t'' then Some 0x09
      else None)"

text \<open>
  The characters of a string after its opening quote (\<open>0x22\<close>), up to the closing quote;
  \<open>0x5C\<close> is the backslash, and a control character below \<open>0x20\<close> is an error.
\<close>

fun parse_string :: "jsstring \<Rightarrow> jsstring \<Rightarrow> (jsstring \<times> jsstring) option" where
  "parse_string [] acc = None"
| "parse_string (c # cs) acc =
     (if c = 0x22 then Some (rev acc, cs)
      else if c = 0x5C then
        (case cs of
           [] \<Rightarrow> None
         | e # es \<Rightarrow>
             if e = cu CHR ''u'' then
               (case es of
                  h3 # h2 # h1 # h0 # rest \<Rightarrow>
                    (case hex4 h3 h2 h1 h0 of
                       None \<Rightarrow> None
                     | Some w \<Rightarrow> parse_string rest (w # acc))
                | _ \<Rightarrow> None)
             else
               (case escape_char e of
                  None \<Rightarrow> None
                | Some d \<Rightarrow> parse_string es (d # acc)))
      else if c < 0x20 then None
      else parse_string cs (c # acc))"

text \<open>
  A number: an optional minus, an integer part (\<open>0\<close>, or a non-zero digit and more digits),
  an optional fraction and an optional exponent.
\<close>

definition pow10 :: "int \<Rightarrow> rat" where
  "pow10 e = (if 0 \<le> e then 10 ^ nat e else 1 / 10 ^ nat (- e))"

definition parse_int_part :: "jsstring \<Rightarrow> (nat \<times> jsstring) option" where
  "parse_int_part s =
     (case s of
        [] \<Rightarrow> None
      | c # cs \<Rightarrow>
          if c = 0x30 then Some (0, cs)
          else if is_digit c then Some (digits_val (takeWhile is_digit s), dropWhile is_digit s)
          else None)"

definition parse_digits :: "jsstring \<Rightarrow> (jsstring \<times> jsstring) option" where
  "parse_digits s =
     (if takeWhile is_digit s = [] then None
      else Some (takeWhile is_digit s, dropWhile is_digit s))"

definition parse_fraction :: "jsstring \<Rightarrow> (rat \<times> jsstring) option" where
  "parse_fraction s =
     (case s of
        [] \<Rightarrow> Some (0, s)
      | c # cs \<Rightarrow>
          if c = cu CHR ''.'' then
            (case parse_digits cs of
               None \<Rightarrow> None
             | Some (ds, r) \<Rightarrow> Some (of_nat (digits_val ds) / 10 ^ length ds, r))
          else Some (0, s))"

definition parse_exponent :: "jsstring \<Rightarrow> (int \<times> jsstring) option" where
  "parse_exponent s =
     (case s of
        [] \<Rightarrow> Some (0, s)
      | c # cs \<Rightarrow>
          if c = cu CHR ''e'' \<or> c = cu CHR ''E'' then
            (case cs of
               [] \<Rightarrow> None
             | d # ds \<Rightarrow>
                 if d = cu CHR ''-'' then
                   (case parse_digits ds of
                      None \<Rightarrow> None
                    | Some (es, r) \<Rightarrow> Some (- int (digits_val es), r))
                 else
                   (case parse_digits (if d = cu CHR ''+'' then ds else cs) of
                      None \<Rightarrow> None
                    | Some (es, r) \<Rightarrow> Some (int (digits_val es), r)))
          else Some (0, s))"

definition parse_unsigned :: "jsstring \<Rightarrow> (rat \<times> jsstring) option" where
  "parse_unsigned s =
     (case parse_int_part s of
        None \<Rightarrow> None
      | Some (ip, r1) \<Rightarrow>
          (case parse_fraction r1 of
             None \<Rightarrow> None
           | Some (fr, r2) \<Rightarrow>
               (case parse_exponent r2 of
                  None \<Rightarrow> None
                | Some (e, r3) \<Rightarrow> Some ((of_nat ip + fr) * pow10 e, r3))))"

definition parse_number :: "jsstring \<Rightarrow> (rat \<times> jsstring) option" where
  "parse_number s =
     (case s of
        [] \<Rightarrow> None
      | c # cs \<Rightarrow>
          if c = cu CHR ''-'' then
            (case parse_unsigned cs of None \<Rightarrow> None | Some (v, r) \<Rightarrow> Some (- v, r))
          else parse_unsigned s)"

lemma skip_ws_Cons_length: "skip_ws s = c # cs \<Longrightarrow> length cs < length s"
  using length_dropWhile_le [of json_ws s] by (simp add: skip_ws_def)

text \<open>
  A value; the elements of an array after its \<open>[\<close>; the members of an object after its
  \<open>{\<close>. The tests \<open>length _ < length s\<close> hold whenever they are reached (the rest of an
  input is shorter than the input); they make the recursion well-founded on the length of
  the input.
\<close>

function (sequential) parse_value :: "jsstring \<Rightarrow> (jsvalue \<times> jsstring) option"
  and parse_elements :: "jsstring \<Rightarrow> jsvalue list \<Rightarrow> (jsvalue \<times> jsstring) option"
  and parse_members :: "jsstring \<Rightarrow> (jsstring \<times> jsvalue) list \<Rightarrow> (jsvalue \<times> jsstring) option"
where
  "parse_value s =
     (case skip_ws s of
        [] \<Rightarrow> None
      | c # cs \<Rightarrow>
          if c = cu CHR ''{'' then
            (case skip_ws cs of
               [] \<Rightarrow> None
             | d # ds \<Rightarrow>
                 if d = cu CHR ''}'' then Some (JObj [], ds) else parse_members (d # ds) [])
          else if c = cu CHR ''['' then
            (case skip_ws cs of
               [] \<Rightarrow> None
             | d # ds \<Rightarrow>
                 if d = cu CHR '']'' then Some (JArr [], ds) else parse_elements (d # ds) [])
          else if c = 0x22 then
            (case parse_string cs [] of None \<Rightarrow> None | Some (str, r) \<Rightarrow> Some (JStr str, r))
          else if prefix (js ''true'') (c # cs) then Some (JBool True, drop 4 (c # cs))
          else if prefix (js ''false'') (c # cs) then Some (JBool False, drop 5 (c # cs))
          else if prefix (js ''null'') (c # cs) then Some (JNull, drop 4 (c # cs))
          else
            (case parse_number (c # cs) of None \<Rightarrow> None | Some (q, r) \<Rightarrow> Some (JNum q, r)))"
| "parse_elements s acc =
     (case parse_value s of
        None \<Rightarrow> None
      | Some (v, r) \<Rightarrow>
          (case skip_ws r of
             [] \<Rightarrow> None
           | c # cs \<Rightarrow>
               if c = cu CHR '']'' then Some (JArr (rev (v # acc)), cs)
               else if c = cu CHR '','' \<and> length cs < length s then parse_elements cs (v # acc)
               else None))"
| "parse_members s acc =
     (case skip_ws s of
        [] \<Rightarrow> None
      | c # cs \<Rightarrow>
          if c = 0x22 then
            (case parse_string cs [] of
               None \<Rightarrow> None
             | Some (k, r) \<Rightarrow>
                 (case skip_ws r of
                    [] \<Rightarrow> None
                  | c2 # r2 \<Rightarrow>
                      if c2 = cu CHR '':'' \<and> length r2 < length s then
                        (case parse_value r2 of
                           None \<Rightarrow> None
                         | Some (v, r3) \<Rightarrow>
                             (case skip_ws r3 of
                                [] \<Rightarrow> None
                              | c3 # r4 \<Rightarrow>
                                  if c3 = cu CHR ''}'' then Some (JObj (rev ((k, v) # acc)), r4)
                                  else if c3 = cu CHR '','' \<and> length r4 < length s
                                    then parse_members r4 ((k, v) # acc)
                                  else None))
                      else None))
          else None)"
  by pat_completeness auto
termination
  apply (relation "measure (\<lambda>x. case x of
            Inl s \<Rightarrow> 2 * length s
          | Inr (Inl (s, acc)) \<Rightarrow> 2 * length s + 1
          | Inr (Inr (s, acc)) \<Rightarrow> 2 * length s + 1)")
        apply (auto dest!: skip_ws_Cons_length)
  done

text \<open>The whole text is one value between optional white space.\<close>

definition JSON_parse :: "jsstring \<Rightarrow> jsvalue option" where
  "JSON_parse s =
     (case parse_value s of
        None \<Rightarrow> None
      | Some (v, r) \<Rightarrow> if skip_ws r = [] then Some v else None)"

section \<open>Configuration loader (run, lines 278-304)\<close>

text \<open>
  One line of a text configuration (lines 295-298): \<open>line.split('|', 2)\<close> and the
  destructuring \<open>[url, goal]\<close>. With no separator in the line \<open>goal\<close> is \<open>undefined\<close> and
  \<open>goal.trim()\<close> throws a TypeError.
\<close>

definition parse_line :: "jsstring \<Rightarrow> js_error + jsvalue" where
  "parse_line line =
     (case take 2 (split_on (cu CHR ''|'') line) of
        urlPart # goalPart # rest \<Rightarrow>
          Inr (JObj [(js ''url'', JStr (trim urlPart)), (js ''goal'', JStr (trim goalPart))])
      | _ \<Rightarrow> Inl TypeError)"

text \<open>Lines 291-299: split into lines, trim, drop blank and comment lines, map, filter.\<close>

definition parse_text_config :: "jsstring \<Rightarrow> js_error + jsvalue" where
  "parse_text_config configContent =
     (case map_throwing parse_line
             (filter (\<lambda>line. line \<noteq> [] \<and> \<not> startsWith line (js ''#''))
                (map trim (split_on 0x0A configContent))) of
        Inl e \<Rightarrow> Inl e
      | Inr ts \<Rightarrow>
          Inr (JArr (filter (\<lambda>t. truthy (field t (js ''url'')) \<and> truthy (field t (js ''goal''))) ts)))"

text \<open>\<open>v === 0\<close>.\<close>

definition strict_eq_zero :: "jsvalue \<Rightarrow> bool" where
  "strict_eq_zero v = (case v of JNum q \<Rightarrow> double_is_zero q | _ \<Rightarrow> False)"

text \<open>
  Lines 279-304. \<open>file\<close> is the content of the file at the resolved path, \<open>None\<close> when
  \<open>fs.existsSync\<close> is false. The result is the value of \<open>tests\<close>: for a \<open>.json\<close> path
  whatever \<open>JSON.parse\<close> returned.
\<close>

definition load_tests :: "jsstring \<Rightarrow> jsstring option \<Rightarrow> js_error + jsvalue" where
  "load_tests testConfigPath file =
     (case file of
        None \<Rightarrow> Inl (Error (js ''Test configuration file not found: '' @ testConfigPath))
      | Some configContent \<Rightarrow>
          (case (if endsWith testConfigPath (js ''.json'')
                 then (case JSON_parse configContent of None \<Rightarrow> Inl SyntaxError | Some v \<Rightarrow> Inr v)
                 else parse_text_config configContent) of
             Inl e \<Rightarrow> Inl e
           | Inr tests \<Rightarrow>
               (case js_get tests (js ''length'') of
                  Inl e \<Rightarrow> Inl e
                | Inr n \<Rightarrow>
                    if strict_eq_zero n then Inl (Error (js ''No tests found in configuration file''))
                    else Inr tests)))"

section \<open>Single-test executor (runSingleTest, lines 140-258)\<close>

text \<open>
  A test case is an object with the properties \<open>url\<close> and \<open>goal\<close>. The entries of a JSON
  configuration are not validated, so either property may hold any value or be \<open>undefined\<close>.
\<close>

record TestConfig =
  url :: jsvalue
  goal :: jsvalue

text \<open>
  A TestResult (lines 19-33). The declared types are erased at run time: \<open>success\<close>,
  \<open>reason\<close>, \<open>error\<close>, \<open>steps\<close> and \<open>violations\<close> hold whatever the parsed output held.
\<close>

record TestResult = TestConfig +
  success :: jsvalue
  reason :: jsvalue
  error :: jsvalue
  steps :: jsvalue
  violations :: jsvalue
  duration :: int

text \<open>
  The call \<open>exec.exec('npm', args, {cwd, env, ...})\<close>: \<open>env\<close> lists the variables the
  function sets on top of the parent environment. What the subprocess did: the text the two
  listeners collected and the milliseconds between the two \<open>Date.now()\<close> readings. An
  exception of \<open>exec.exec\<close> is swallowed by the empty \<open>catch\<close> (lines 202-204), so it does
  not appear.
\<close>

record invocation =
  args :: "jsvalue list"
  env :: "(jsstring \<times> jsvalue) list"
  cwd :: jsstring

record proc_outcome =
  stdout :: jsstring
  stderr :: jsstring
  elapsed :: int

text \<open>
  \<open>dashboardUrl.replace(/\/$/, '')\<close>: the pattern has no flag, so \<open>$\<close> matches at the end
  of the input only and the call removes one final slash, if there is one.
\<close>

definition strip_trailing_slash :: "jsstring \<Rightarrow> jsstring" where
  "strip_trailing_slash u = (if endsWith u (js ''/'') then butlast u else u)"

text \<open>Lines 166-171; \<open>None\<close> is \<open>null\<close>.\<close>

definition live_env ::
  "jsvalue \<Rightarrow> nat \<Rightarrow> jsstring option \<Rightarrow> jsstring option \<Rightarrow> (jsstring \<times> jsvalue) list" where
  "live_env liveTestRunId testIndex dashboardUrl dashboardApiKey =
     (case (dashboardUrl, dashboardApiKey) of
        (Some u, Some k) \<Rightarrow>
          if truthy liveTestRunId \<and> u \<noteq> [] \<and> k \<noteq> [] then
            [(js ''DASHBOARD_URL'', JStr (strip_trailing_slash u)),
             (js ''DASHBOARD_API_KEY'', JStr k),
             (js ''TEST_RUN_ID'', liveTestRunId),
             (js ''TEST_INDEX'', JStr (show_nat testIndex))]
          else []
      | _ \<Rightarrow> [])"

text \<open>Lines 153-183.\<close>

definition agent_invocation ::
  "TestConfig \<Rightarrow> jsstring \<Rightarrow> jsstring \<Rightarrow> bool \<Rightarrow> jsstring \<Rightarrow> jsvalue \<Rightarrow> nat
   \<Rightarrow> jsstring option \<Rightarrow> jsstring option \<Rightarrow> invocation" where
  "agent_invocation config provider apiKey headless agentPath liveTestRunId testIndex
       dashboardUrl dashboardApiKey =
     \<lparr>args = [JStr (js ''run''), JStr (js ''start:agent-cli''), JStr (js ''--''),
               url config, goal config, JStr provider, JStr (js ''--json'')]
              @ (if truthy liveTestRunId then [JStr (js ''--live'')] else []),
      env = [(js ''HEADLESS'', JStr (if headless then js ''true'' else js ''false'')),
             (if provider = js ''openai'' then js ''OPENAI_API_KEY'' else js ''GEMINI_API_KEY'',
              JStr apiKey)]
            @ live_env liveTestRunId testIndex dashboardUrl dashboardApiKey,
      cwd = agentPath\<rparr>"

text \<open>
  The loop of lines 216-225 over the rest of \<open>jsonStr\<close> from index \<open>i\<close>: the source's
  \<open>jsonEnd = -1\<close> is \<open>None\<close>.
\<close>

fun find_json_end :: "jsstring \<Rightarrow> nat \<Rightarrow> int \<Rightarrow> nat option" where
  "find_json_end [] i braceCount = None"
| "find_json_end (c # cs) i braceCount =
     (if c = cu CHR ''{'' then find_json_end cs (Suc i) (braceCount + 1)
      else if c = cu CHR ''}'' then
        (if braceCount - 1 = 0 then Some (Suc i) else find_json_end cs (Suc i) (braceCount - 1))
      else find_json_end cs (Suc i) braceCount)"

text \<open>
  The number of \<open>{\<close> minus the number of \<open>}\<close> in a text: what \<open>braceCount\<close> is after
  the loop has read the text from 0, wherever the braces stand (inside a JSON string too).
\<close>

fun brace_depth :: "jsstring \<Rightarrow> int" where
  "brace_depth [] = 0"
| "brace_depth (c # cs) =
     (if c = cu CHR ''{'' then 1 else if c = cu CHR ''}'' then - 1 else 0) + brace_depth cs"

text \<open>Lines 210-228: the text that is handed to \<open>JSON.parse\<close>, if any.\<close>

definition extract_json :: "jsstring \<Rightarrow> jsstring option" where
  "extract_json out =
     (case indexOf out (js ''{\"url\"'') of
        None \<Rightarrow> None
      | Some jsonStart \<Rightarrow>
          (case find_json_end (drop jsonStart out) 0 0 of
             None \<Rightarrow> None
           | Some jsonEnd \<Rightarrow>
               if 0 < jsonEnd then Some (take jsonEnd (drop jsonStart out)) else None))"

text \<open>Lines 231-240.\<close>

definition result_of_parsed :: "TestConfig \<Rightarrow> jsvalue \<Rightarrow> int \<Rightarrow> js_error + TestResult" where
  "result_of_parsed config parsed dur =
     (case js_get parsed (js ''success'') of
        Inl e \<Rightarrow> Inl e
      | Inr s \<Rightarrow>
          Inr \<lparr>url = url config, goal = goal config,
               success = js_or s (JBool False),
               reason = js_or (field parsed (js ''reason'')) JNull,
               error = js_or (field parsed (js ''error'')) JNull,
               steps = js_or (field parsed (js ''steps'')) (JArr []),
               violations = js_or (field parsed (js ''violations'')) (JArr []),
               duration = dur\<rparr>)"

text \<open>
  The body of the \<open>try\<close> of lines 209-242: \<open>Inl\<close> is an exception thrown in it,
  \<open>Inr None\<close> is falling through to line 247, \<open>Inr (Some r)\<close> is \<open>return r\<close>.
\<close>

definition parse_agent_output ::
  "TestConfig \<Rightarrow> jsstring \<Rightarrow> int \<Rightarrow> js_error + TestResult option" where
  "parse_agent_output config out dur =
     (case extract_json out of
        None \<Rightarrow> Inr None
      | Some jsonStr \<Rightarrow>
          (case JSON_parse jsonStr of
             None \<Rightarrow> Inl SyntaxError
           | Some parsed \<Rightarrow>
               (case result_of_parsed config parsed dur of
                  Inl e \<Rightarrow> Inl e
                | Inr r \<Rightarrow> Inr (Some r))))"

text \<open>Lines 248-257.\<close>

definition error_result :: "TestConfig \<Rightarrow> jsstring \<Rightarrow> int \<Rightarrow> TestResult" where
  "error_result config err dur =
     \<lparr>url = url config, goal = goal config,
      success = JBool False,
      reason = JNull,
      error = js_or (JStr err) (JStr (js ''Could not parse agent output'')),
      steps = JArr [],
      violations = JArr [],
      duration = dur\<rparr>"

text \<open>Lines 206-257: the \<open>catch\<close> of line 243 only logs, and control reaches line 247.\<close>

definition result_of_outcome :: "TestConfig \<Rightarrow> proc_outcome \<Rightarrow> TestResult" where
  "result_of_outcome config outcome =
     (case parse_agent_output config (stdout outcome) (elapsed outcome) of
        Inr (Some r) \<Rightarrow> r
      | _ \<Rightarrow> error_result config (stderr outcome) (elapsed outcome))"

text \<open>The whole function; \<open>exec\<close> is the subprocess, answering an invocation.\<close>

definition runSingleTest ::
  "(invocation \<Rightarrow> proc_outcome) \<Rightarrow> TestConfig \<Rightarrow> jsstring \<Rightarrow> jsstring \<Rightarrow> bool \<Rightarrow> jsstring
   \<Rightarrow> jsvalue \<Rightarrow> nat \<Rightarrow> jsstring option \<Rightarrow> jsstring option \<Rightarrow> TestResult" where
  "runSingleTest exec config provider apiKey headless agentPath liveTestRunId testIndex
       dashboardUrl dashboardApiKey =
     result_of_outcome config
       (exec (agent_invocation config provider apiKey headless agentPath liveTestRunId testIndex
                dashboardUrl dashboardApiKey))"

section \<open>Live dashboard reporter (startLiveRun, completeLiveRun, lines 46-138)\<close>

text \<open>Lines 65-67, 114-116 and 128; \<open>idText\<close> is the run id as the template literal renders it.\<close>

definition start_endpoint :: "jsstring \<Rightarrow> jsstring" where
  "start_endpoint dashboardUrl =
     (if endsWith dashboardUrl (js ''/'') then dashboardUrl @ js ''api/live/start''
      else dashboardUrl @ js ''/api/live/start'')"

definition complete_endpoint :: "jsstring \<Rightarrow> jsstring" where
  "complete_endpoint dashboardUrl =
     (if endsWith dashboardUrl (js ''/'') then dashboardUrl @ js ''api/live/complete''
      else dashboardUrl @ js ''/api/live/complete'')"

definition viewer_url :: "jsstring \<Rightarrow> jsstring \<Rightarrow> jsstring" where
  "viewer_url dashboardUrl idText = strip_trailing_slash dashboardUrl @ js ''/runs/'' @ idText"

text \<open>
  The strings that lines 56-60 build from \<open>github.context\<close>; reading the context can throw
  (no repository in the environment, no ref), which is the \<open>Inl\<close> of the parameter
  \<open>github\<close> below.
\<close>

record ci_context =
  jobName :: jsstring
  buildNumber :: jsstring
  buildUrl :: jsstring
  branch :: jsstring
  commit :: jsstring

datatype payload =
    Start_payload ci_context nat "TestConfig list"
  | Complete_payload jsvalue "TestResult list" int

record request =
  endpoint :: jsstring
  api_key :: jsstring
  body :: payload

text \<open>
  What \<open>fetch\<close> did: it threw (a transport error), or it returned a response with a status
  and a body. \<open>response.ok\<close> is a status from 200 to 299.
\<close>

datatype fetch_outcome = Rejected js_error | Response nat jsstring

definition response_ok :: "nat \<Rightarrow> bool" where
  "response_ok status = (200 \<le> status \<and> status \<le> 299)"

text \<open>
  \<open>core.warning\<close>: a message, or a message followed by the engine's rendering of a caught
  exception.
\<close>

datatype warning = Warning jsstring | Warning_error jsstring js_error

text \<open>\<open>{url: t.url, goal: t.goal}\<close>: the two properties of an entry of \<open>tests\<close>.\<close>

definition to_config :: "jsvalue \<Rightarrow> js_error + TestConfig" where
  "to_config t =
     (case js_get t (js ''url'') of
        Inl e \<Rightarrow> Inl e
      | Inr u \<Rightarrow>
          (case js_get t (js ''goal'') of
             Inl e \<Rightarrow> Inl e
           | Inr g \<Rightarrow> Inr \<lparr>url = u, goal = g\<rparr>))"

text \<open>
  The body of the \<open>try\<close> of lines 51-84 and the function with its \<open>catch\<close> (lines 85-88).
  The result is the warnings logged and the value returned.
\<close>

definition startLiveRun_try ::
  "(js_error + ci_context) \<Rightarrow> (request \<Rightarrow> fetch_outcome) \<Rightarrow> jsstring \<Rightarrow> jsstring \<Rightarrow> jsvalue list
   \<Rightarrow> js_error + (warning list \<times> jsvalue)" where
  "startLiveRun_try github fetch dashboardUrl apiKey tests =
     (case github of
        Inl e \<Rightarrow> Inl e
      | Inr ctx \<Rightarrow>
          (case map_throwing to_config tests of
             Inl e \<Rightarrow> Inl e
           | Inr ts \<Rightarrow>
               (case fetch \<lparr>endpoint = start_endpoint dashboardUrl, api_key = apiKey,
                            body = Start_payload ctx (length tests) ts\<rparr> of
                  Rejected e \<Rightarrow> Inl e
                | Response status bodyText \<Rightarrow>
                    if response_ok status then
                      (case JSON_parse bodyText of
                         None \<Rightarrow> Inl SyntaxError
                       | Some data \<Rightarrow>
                           (case js_get data (js ''testRunId'') of
                              Inl e \<Rightarrow> Inl e
                            | Inr v \<Rightarrow> Inr ([], v)))
                    else
                      Inr ([Warning (js ''Failed to start live run: HTTP '' @ show_nat status)],
                           JNull))))"

definition startLiveRun ::
  "(js_error + ci_context) \<Rightarrow> (request \<Rightarrow> fetch_outcome) \<Rightarrow> jsstring \<Rightarrow> jsstring \<Rightarrow> jsvalue list
   \<Rightarrow> warning list \<times> jsvalue" where
  "startLiveRun github fetch dashboardUrl apiKey tests =
     (case startLiveRun_try github fetch dashboardUrl apiKey tests of
        Inl e \<Rightarrow> ([Warning_error (js ''Error starting live run: '') e], JNull)
      | Inr r \<Rightarrow> r)"

text \<open>
  A template literal \<open>`${v}`\<close> applies ToString to \<open>v\<close>. For a value that came out of
  \<open>JSON.parse\<close> this throws a TypeError in one case only: an object with an own property
  \<open>toString\<close>, which is not callable (the inherited \<open>valueOf\<close> returns the object itself,
  an own one is not callable either); an object without it is rendered by
  \<open>Object.prototype.toString\<close>. An array is rendered by \<open>join\<close>, which applies ToString to
  its elements, \<open>null\<close> and \<open>undefined\<close> apart (they are rendered as the empty string).
\<close>

fun toString_throws :: "jsvalue \<Rightarrow> bool" where
  "toString_throws (JObj members) = list_ex (\<lambda>member. fst member = js ''toString'') members"
| "toString_throws (JArr elements) = list_ex toString_throws elements"
| "toString_throws JUndefined = False"
| "toString_throws JNull = False"
| "toString_throws (JBool b) = False"
| "toString_throws (JNum n) = False"
| "toString_throws (JStr s) = False"

text \<open>
  The text of \<open>`${v}`\<close> when it does not throw: a string is itself; \<open>render\<close> is the
  engine's ToString for the other values.
\<close>

definition template_text :: "(jsvalue \<Rightarrow> jsstring) \<Rightarrow> jsvalue \<Rightarrow> jsstring" where
  "template_text render v = (case v of JStr s \<Rightarrow> s | _ \<Rightarrow> render v)"

text \<open>
  The body of the \<open>try\<close> of lines 98-133 and the function with its \<open>catch\<close>. The value
  returned is a string or \<open>null\<close> (\<open>None\<close>).
\<close>

definition completeLiveRun_try ::
  "(jsvalue \<Rightarrow> jsstring) \<Rightarrow> (request \<Rightarrow> fetch_outcome) \<Rightarrow> jsstring \<Rightarrow> jsstring \<Rightarrow> jsvalue
   \<Rightarrow> TestResult list \<Rightarrow> int \<Rightarrow> js_error + (warning list \<times> jsstring option)" where
  "completeLiveRun_try render fetch dashboardUrl apiKey testRunId results totalDuration =
     (case fetch \<lparr>endpoint = complete_endpoint dashboardUrl, api_key = apiKey,
                  body = Complete_payload testRunId results totalDuration\<rparr> of
        Rejected e \<Rightarrow> Inl e
      | Response status bodyText \<Rightarrow>
          if response_ok status then
            (if toString_throws testRunId then Inl TypeError
             else Inr ([], Some (viewer_url dashboardUrl (template_text render testRunId))))
          else
            Inr ([Warning (js ''Failed to complete live run: HTTP '' @ show_nat status)], None))"

definition completeLiveRun ::
  "(jsvalue \<Rightarrow> jsstring) \<Rightarrow> (request \<Rightarrow> fetch_outcome) \<Rightarrow> jsstring \<Rightarrow> jsstring \<Rightarrow> jsvalue
   \<Rightarrow> TestResult list \<Rightarrow> int \<Rightarrow> warning list \<times> jsstring option" where
  "completeLiveRun render fetch dashboardUrl apiKey testRunId results totalDuration =
     (case completeLiveRun_try render fetch dashboardUrl apiKey testRunId results totalDuration of
        Inl e \<Rightarrow> ([Warning_error (js ''Error completing live run: '') e], None)
      | Inr r \<Rightarrow> r)"

section \<open>Orchestration (run, lines 306-420)\<close>

text \<open>
  The inputs of the action after lines 263-276, and \<open>agentPath\<close> (line 317). The part of
  \<open>run\<close> after the configuration is loaded is modelled for \<open>tests\<close> an array, as its
  declared type \<open>TestConfig[]\<close> says; the entries are arbitrary values. What \<open>core.info\<close>
  and \<open>core.error\<close> print is not recorded, but the template literals of their arguments are
  evaluated: where one is applied to a value that is not known to be a string or a number,
  it can throw, and the exception leaves \<open>run\<close> through the \<open>catch\<close> of line 422.
\<close>

record settings =
  provider :: jsstring
  apiKey :: jsstring
  headless :: bool
  continueOnFailure :: bool
  dashboardUrl :: jsstring
  dashboardApiKey :: jsstring
  agentPath :: jsstring

text \<open>\<open>s || null\<close> for a string \<open>s\<close>.\<close>

definition or_null :: "jsstring \<Rightarrow> jsstring option" where
  "or_null s = (if s = [] then None else Some s)"

text \<open>
  Lines 342-352. \<open>exec i\<close> is the subprocess of the \<open>i\<close>-th call: two calls with the same
  invocation need not behave alike.
\<close>

definition run_test ::
  "(nat \<Rightarrow> invocation \<Rightarrow> proc_outcome) \<Rightarrow> settings \<Rightarrow> jsvalue \<Rightarrow> TestConfig \<Rightarrow> nat \<Rightarrow> TestResult" where
  "run_test exec cfg liveTestRunId test i =
     runSingleTest (exec i) test (provider cfg) (apiKey cfg) (headless cfg) (agentPath cfg)
       liveTestRunId i (or_null (dashboardUrl cfg)) (or_null (dashboardApiKey cfg))"

text \<open>
  Line 356 prints \<open>result.reason || 'Test completed successfully'\<close> and lines 359-360 print
  \<open>result.error || result.reason || 'Test did not pass'\<close>.
\<close>

definition passedReason :: "TestResult \<Rightarrow> jsvalue" where
  "passedReason result = js_or (reason result) (JStr (js ''Test completed successfully''))"

definition failReason :: "TestResult \<Rightarrow> jsvalue" where
  "failReason result =
     js_or (js_or (error result) (reason result)) (JStr (js ''Test did not pass''))"

text \<open>
  The loop of lines 333-370 from index \<open>i\<close>, with the variables \<open>results\<close> and
  \<open>hasFailure\<close>. Reading \<open>test.url\<close> (line 338) throws when the entry is \<open>null\<close> or
  \<open>undefined\<close>; the template literals of lines 338 and 339 throw when \<open>test.url\<close> or
  \<open>test.goal\<close> has no string rendering, before the test is executed; those of lines 356 and
  360 throw when the message has none, after the result was pushed and before
  continue-on-failure is looked at. An exception leaves the loop (\<open>Inl\<close>).
\<close>

function run_loop ::
  "(nat \<Rightarrow> invocation \<Rightarrow> proc_outcome) \<Rightarrow> settings \<Rightarrow> jsvalue \<Rightarrow> jsvalue list \<Rightarrow> nat
   \<Rightarrow> TestResult list \<Rightarrow> bool \<Rightarrow> js_error + (TestResult list \<times> bool)" where
  "run_loop exec cfg liveTestRunId tests i results hasFailure =
     (if i < length tests then
        (case to_config (tests ! i) of
           Inl e \<Rightarrow> Inl e
         | Inr test \<Rightarrow>
             if toString_throws (url test) \<or> toString_throws (goal test) then Inl TypeError
             else if truthy (success (run_test exec cfg liveTestRunId test i)) then
               if toString_throws (passedReason (run_test exec cfg liveTestRunId test i))
               then Inl TypeError
               else
                 run_loop exec cfg liveTestRunId tests (Suc i)
                   (results @ [run_test exec cfg liveTestRunId test i]) hasFailure
             else if toString_throws (failReason (run_test exec cfg liveTestRunId test i))
             then Inl TypeError
             else if \<not> continueOnFailure cfg then
               Inr (results @ [run_test exec cfg liveTestRunId test i], True)
             else
               run_loop exec cfg liveTestRunId tests (Suc i)
                 (results @ [run_test exec cfg liveTestRunId test i]) True)
      else Inr (results, hasFailure))"
  by pat_completeness auto
termination
  by (relation "measure (\<lambda>(exec, cfg, liveTestRunId, tests, i, results, hasFailure). length tests - i)")
     auto

declare run_loop.simps [simp del]

subsection \<open>The pass rate (line 390)\<close>

text \<open>
  \<open>((passedTests / totalTests) * 100).toFixed(1)\<close> is double arithmetic. A double is
  modelled by the rational number it denotes, and a division or multiplication by the exact
  result rounded to 53 significant bits, ties to the even significand. The exponent range is
  not modelled: the values here lie between \<open>1 / 2 ^ 32\<close> and 100, far from underflow and
  overflow. \<open>ilog2 x\<close> is the exponent of a positive \<open>x\<close>, the integer \<open>e\<close> with
  \<open>2 ^ e \<le> x < 2 ^ (e + 1)\<close>.
\<close>

fun bitlen :: "nat \<Rightarrow> nat" where
  "bitlen n = (if n = 0 then 0 else Suc (bitlen (n div 2)))"

declare bitlen.simps [simp del]

definition pow2 :: "int \<Rightarrow> rat" where
  "pow2 e = (if 0 \<le> e then 2 ^ nat e else 1 / 2 ^ nat (- e))"

definition ilog2 :: "rat \<Rightarrow> int" where
  "ilog2 x =
     (if 1 \<le> x then int (bitlen (nat \<lfloor>x\<rfloor>)) - 1 else - int (bitlen (nat (\<lceil>1 / x\<rceil> - 1))))"

definition round_half_even :: "rat \<Rightarrow> int" where
  "round_half_even x =
     (if x - of_int \<lfloor>x\<rfloor> < 1 / 2 then \<lfloor>x\<rfloor>
      else if 1 / 2 < x - of_int \<lfloor>x\<rfloor> then \<lfloor>x\<rfloor> + 1
      else if even \<lfloor>x\<rfloor> then \<lfloor>x\<rfloor> else \<lfloor>x\<rfloor> + 1)"

definition round53 :: "rat \<Rightarrow> rat" where
  "round53 x =
     (if x = 0 then 0
      else of_int (round_half_even (x / pow2 (ilog2 \<bar>x\<bar> - 52))) * pow2 (ilog2 \<bar>x\<bar> - 52))"

text \<open>
  \<open>x.toFixed(1)\<close> for \<open>0 \<le> x < 10 ^ 21\<close>: the integer \<open>n\<close> with \<open>n / 10\<close> nearest to \<open>x\<close>,
  the larger one of two, printed with a point before its last digit.
\<close>

definition toFixed1 :: "rat \<Rightarrow> jsstring" where
  "toFixed1 x =
     (case show_nat (nat \<lfloor>x * 10 + 1 / 2\<rfloor>) of
        [d] \<Rightarrow> js ''0.'' @ [d]
      | ds \<Rightarrow> butlast ds @ js ''.'' @ [last ds])"

definition passRate :: "nat \<Rightarrow> nat \<Rightarrow> jsstring" where
  "passRate passedTests totalTests =
     (if 0 < totalTests
      then toFixed1 (round53 (round53 (of_nat passedTests / of_nat totalTests) * 100))
      else js ''0.0'')"

subsection \<open>Summary, outputs and exit status (lines 372-420)\<close>

text \<open>
  An output of the action is a text, or \<open>JSON.stringify(results)\<close>, which is kept as the
  list it serialises. A report is what the run leaves behind once the loop has completed: the
  warnings, the results, the outputs set (in order) and the message of \<open>core.setFailed\<close>,
  if it was called.
\<close>

datatype output_value = Text jsstring | Json_of "TestResult list"

record report =
  logged :: "warning list"
  produced :: "TestResult list"
  outputs :: "(jsstring \<times> output_value) list"
  failure :: "jsstring option"

definition passed_count :: "TestResult list \<Rightarrow> nat" where
  "passed_count results = length (filter (\<lambda>r. truthy (success r)) results)"

text \<open>Lines 387-390 and 407-415.\<close>

definition summary_outputs ::
  "TestResult list \<Rightarrow> jsstring option \<Rightarrow> (jsstring \<times> output_value) list" where
  "summary_outputs results dashboardResultsUrl =
     [(js ''total-tests'', Text (show_nat (length results))),
      (js ''passed-tests'', Text (show_nat (passed_count results))),
      (js ''failed-tests'', Text (show_nat (length results - passed_count results))),
      (js ''pass-rate'', Text (passRate (passed_count results) (length results))),
      (js ''results-json'', Json_of results)]
     @ (case dashboardResultsUrl of
          None \<Rightarrow> []
        | Some u \<Rightarrow> if u \<noteq> [] then [(js ''dashboard-url'', Text u)] else [])"

text \<open>Line 419.\<close>

definition failure_message :: "TestResult list \<Rightarrow> jsstring" where
  "failure_message results =
     show_nat (length results - passed_count results) @ js '' out of '' @ show_nat (length results)
       @ js '' accessibility tests failed''"

definition finish ::
  "warning list \<Rightarrow> TestResult list \<Rightarrow> bool \<Rightarrow> warning list \<times> jsstring option \<Rightarrow> report" where
  "finish started results hasFailure completed =
     \<lparr>logged = started @ fst completed,
      produced = results,
      outputs = summary_outputs results (snd completed),
      failure = (if hasFailure then Some (failure_message results) else None)\<rparr>"

text \<open>
  Lines 320-322: the warnings of \<open>startLiveRun\<close> and the value of \<open>liveTestRunId\<close>. The two
  messages of lines 323-326 are part of \<open>run_tests\<close> below.
\<close>

definition start_phase ::
  "(js_error + ci_context) \<Rightarrow> (request \<Rightarrow> fetch_outcome) \<Rightarrow> settings \<Rightarrow> jsvalue list
   \<Rightarrow> warning list \<times> jsvalue" where
  "start_phase github fetch cfg tests =
     (if dashboardUrl cfg \<noteq> [] \<and> dashboardApiKey cfg \<noteq> []
      then startLiveRun github fetch (dashboardUrl cfg) (dashboardApiKey cfg) tests
      else ([], JNull))"

text \<open>Lines 375-384.\<close>

definition complete_phase ::
  "(jsvalue \<Rightarrow> jsstring) \<Rightarrow> (request \<Rightarrow> fetch_outcome) \<Rightarrow> settings \<Rightarrow> jsvalue
   \<Rightarrow> TestResult list \<Rightarrow> int \<Rightarrow> warning list \<times> jsstring option" where
  "complete_phase render fetch cfg liveTestRunId results totalDuration =
     (if truthy liveTestRunId \<and> dashboardUrl cfg \<noteq> [] \<and> dashboardApiKey cfg \<noteq> []
      then completeLiveRun render fetch (dashboardUrl cfg) (dashboardApiKey cfg) liveTestRunId
             results totalDuration
      else ([], None))"

text \<open>
  Lines 319-420. \<open>Inl\<close> is an exception that reaches the \<open>catch\<close> of line 422;
  \<open>totalDuration\<close> is the difference of the two clock readings. A truthy run id is printed
  (lines 323-326) before the loop starts, and \<open>`${liveTestRunId}`\<close> throws when the id has no
  string rendering.
\<close>

definition run_tests ::
  "(jsvalue \<Rightarrow> jsstring) \<Rightarrow> (js_error + ci_context) \<Rightarrow> (request \<Rightarrow> fetch_outcome)
   \<Rightarrow> (nat \<Rightarrow> invocation \<Rightarrow> proc_outcome) \<Rightarrow> int \<Rightarrow> settings \<Rightarrow> jsvalue list
   \<Rightarrow> js_error + report" where
  "run_tests render github fetch exec totalDuration cfg tests =
     (case start_phase github fetch cfg tests of
        (started, liveTestRunId) \<Rightarrow>
          if truthy liveTestRunId \<and> toString_throws liveTestRunId then Inl TypeError
          else
            (case run_loop exec cfg liveTestRunId tests 0 [] False of
               Inl e \<Rightarrow> Inl e
             | Inr (results, hasFailure) \<Rightarrow>
                 Inr (finish started results hasFailure
                        (complete_phase render fetch cfg liveTestRunId results totalDuration))))"

section \<open>Evaluation and helper lemmas\<close>

lemma endsWith_rev: "endsWith s t = prefix (rev t) (rev s)"
  by (simp add: endsWith_def suffix_to_prefix)

lemma endsWith_snoc: "endsWith (u @ t) t"
  by (simp add: endsWith_def suffix_def)

text \<open>The equations that evaluate the model on a concrete input.\<close>

lemmas string_eval = js_def cu_def startsWith_def endsWith_rev trim_def is_space_def indexOf_def

lemmas json_eval = JSON_parse_def skip_ws_def json_ws_def is_digit_def digits_val_def
  digit_val_def parse_number_def parse_unsigned_def parse_exponent_def parse_fraction_def
  parse_digits_def parse_int_part_def pow10_def escape_char_def hex4_def hex_val_def

lemmas loader_eval = load_tests_def parse_text_config_def parse_line_def strict_eq_zero_def
  double_is_zero_def field_def

lemmas executor_eval = extract_json_def result_of_parsed_def parse_agent_output_def
  error_result_def result_of_outcome_def runSingleTest_def js_or_def

lemma double_is_zero_of_nat: "double_is_zero (of_nat n) = (n = 0)"
proof (cases "n = 0")
  case True
  then show ?thesis by (simp add: double_is_zero_def)
next
  case False
  have small: "(1::rat) / 2 ^ 1075 < 1"
    by (simp add: divide_less_eq_1)
  have "(1::rat) \<le> of_nat n"
    using False by simp
  then have "\<not> \<bar>of_nat n :: rat\<bar> \<le> 1 / 2 ^ 1075"
    using small by linarith
  then show ?thesis
    using False by (simp only: double_is_zero_def)
qed

lemma strict_eq_zero_length: "strict_eq_zero (JNum (of_nat (length xs))) = (xs = [])"
  by (simp add: strict_eq_zero_def double_is_zero_of_nat)

section \<open>The JSON parser consumes its input\<close>

lemma parse_string_shorter: "parse_string s acc = Some (v, r) \<Longrightarrow> length r < length s"
proof (induction s acc rule: parse_string.induct)
  case (1 acc)
  then show ?case by simp
next
  case (2 c cs acc)
  note run = "2.prems"
  show ?case
  proof (cases "c = 0x22")
    case True
    with run show ?thesis by simp
  next
    case quote: False
    show ?thesis
    proof (cases "c = 0x5C")
      case True
      with run quote obtain e es where cs: "cs = e # es"
        by (cases cs) simp_all
      show ?thesis
      proof (cases "e = cu CHR ''u''")
        case True
        with run quote \<open>c = 0x5C\<close> cs obtain h3 h2 h1 h0 rest w where
          es: "es = h3 # h2 # h1 # h0 # rest" and hex: "hex4 h3 h2 h1 h0 = Some w" and
          rec: "parse_string rest (w # acc) = Some (v, r)"
          by (simp split: list.splits option.splits)
        have "length r < length rest"
          using "2.IH"(1) quote \<open>c = 0x5C\<close> cs True es hex rec by blast
        then show ?thesis
          using cs es by simp
      next
        case False
        with run quote \<open>c = 0x5C\<close> cs obtain d where
          esc: "escape_char e = Some d" and rec: "parse_string es (d # acc) = Some (v, r)"
          by (simp split: option.splits)
        have "length r < length es"
          using "2.IH"(2) quote \<open>c = 0x5C\<close> cs False esc rec by blast
        then show ?thesis
          using cs by simp
      qed
    next
      case False
      with run quote have ok: "\<not> c < 0x20" and rec: "parse_string cs (c # acc) = Some (v, r)"
        by (simp_all split: if_splits)
      have "length r < length cs"
        using "2.IH"(3) quote False ok rec by blast
      then show ?thesis
        by simp
    qed
  qed
qed

lemma parse_digits_shorter: "parse_digits s = Some (ds, r) \<Longrightarrow> length r \<le> length s"
  by (auto simp: parse_digits_def length_dropWhile_le split: if_splits)

lemma parse_int_part_shorter: "parse_int_part s = Some (ip, r) \<Longrightarrow> length r < length s"
  by (cases s) (auto simp: parse_int_part_def less_Suc_eq_le length_dropWhile_le split: if_splits)

lemma parse_fraction_shorter: "parse_fraction s = Some (fr, r) \<Longrightarrow> length r \<le> length s"
  by (cases s)
     (auto simp: parse_fraction_def split: if_splits option.splits dest!: parse_digits_shorter)

lemma parse_exponent_shorter: "parse_exponent s = Some (e, r) \<Longrightarrow> length r \<le> length s"
  by (cases s)
     (auto simp: parse_exponent_def split: if_splits option.splits list.splits
           dest!: parse_digits_shorter)

lemma parse_unsigned_shorter: "parse_unsigned s = Some (q, r) \<Longrightarrow> length r < length s"
  by (auto simp: parse_unsigned_def split: option.splits
      dest!: parse_int_part_shorter parse_fraction_shorter parse_exponent_shorter)

lemma parse_number_shorter: "parse_number s = Some (q, r) \<Longrightarrow> length r < length s"
  by (cases s)
     (auto simp: parse_number_def split: if_splits option.splits dest!: parse_unsigned_shorter)

lemma skip_ws_length: "length (skip_ws s) \<le> length s"
  by (simp add: skip_ws_def length_dropWhile_le)

text \<open>
  Each parser returns a rest that is shorter than its input. So the tests on the lengths in
  \<open>parse_elements\<close> and \<open>parse_members\<close> never fail: the parser is plain recursive descent.
  What \<open>parse_members\<close> returns is an object.
\<close>

lemma parse_shorter:
  "(\<forall>v r. parse_value s = Some (v, r) \<longrightarrow> length r < length s)"
  "(\<forall>v r. parse_elements s1 acc1 = Some (v, r) \<longrightarrow> length r < length s1)"
  "(\<forall>v r. parse_members s2 acc2 = Some (v, r) \<longrightarrow> length r < length s2 \<and> (\<exists>ms. v = JObj ms))"
proof (induction s and s1 acc1 and s2 acc2 rule: parse_value_parse_elements_parse_members.induct)
  case (1 s)
  show ?case
  proof (intro allI impI)
    fix v r
    assume a: "parse_value s = Some (v, r)"
    then obtain c cs where ws: "skip_ws s = c # cs"
      by (cases "skip_ws s") (auto simp: parse_value.simps [of s])
    have cs: "length cs < length s"
      using ws by (rule skip_ws_Cons_length)
    show "length r < length s"
    proof (cases "c = cu CHR ''{''")
      case True
      with a ws obtain d ds where ws2: "skip_ws cs = d # ds"
        by (cases "skip_ws cs") (auto simp: parse_value.simps [of s])
      have ds: "length (d # ds) \<le> length cs"
        using skip_ws_length [of cs] ws2 by simp
      show ?thesis
      proof (cases "d = cu CHR ''}''")
        case True
        with a ws ws2 \<open>c = cu CHR ''{''\<close> have "r = ds"
          by (simp add: parse_value.simps [of s])
        with ds cs show ?thesis by simp
      next
        case False
        with a ws ws2 \<open>c = cu CHR ''{''\<close> have "parse_members (d # ds) [] = Some (v, r)"
          by (simp add: parse_value.simps [of s])
        with "1.IH"(1) [OF ws \<open>c = cu CHR ''{''\<close> ws2 False] have "length r < length (d # ds)"
          by blast
        with ds cs show ?thesis by simp
      qed
    next
      case notobj: False
      show ?thesis
      proof (cases "c = cu CHR ''[''")
        case True
        with a ws notobj obtain d ds where ws2: "skip_ws cs = d # ds"
          by (cases "skip_ws cs") (auto simp: parse_value.simps [of s])
        have ds: "length (d # ds) \<le> length cs"
          using skip_ws_length [of cs] ws2 by simp
        show ?thesis
        proof (cases "d = cu CHR '']''")
          case True
          with a ws ws2 notobj \<open>c = cu CHR ''[''\<close> have "r = ds"
            by (simp add: parse_value.simps [of s])
          with ds cs show ?thesis by simp
        next
          case False
          with a ws ws2 notobj \<open>c = cu CHR ''[''\<close> have "parse_elements (d # ds) [] = Some (v, r)"
            by (simp add: parse_value.simps [of s])
          with "1.IH"(2) [OF ws notobj \<open>c = cu CHR ''[''\<close> ws2 False] have "length r < length (d # ds)"
            by blast
          with ds cs show ?thesis by simp
        qed
      next
        case False
        with a ws notobj have "length r < length (c # cs)"
          by (auto simp: parse_value.simps [of s] split: if_splits option.splits
              dest!: parse_string_shorter parse_number_shorter)
        with ws skip_ws_length [of s] show ?thesis by simp
      qed
    qed
  qed
next
  case (2 s acc)
  show ?case
  proof (intro allI impI)
    fix v r
    assume a: "parse_elements s acc = Some (v, r)"
    then obtain v1 r1 where pv: "parse_value s = Some (v1, r1)"
      by (cases "parse_value s") (auto simp: parse_elements.simps [of s acc])
    from "2.IH"(1) pv have r1: "length r1 < length s"
      by blast
    from a pv obtain c cs where ws: "skip_ws r1 = c # cs"
      by (cases "skip_ws r1") (auto simp: parse_elements.simps [of s acc])
    have cs: "length cs < length r1"
      using ws by (rule skip_ws_Cons_length)
    show "length r < length s"
    proof (cases "c = cu CHR '']''")
      case True
      with a pv ws have "r = cs"
        by (simp add: parse_elements.simps [of s acc])
      with cs r1 show ?thesis by simp
    next
      case False
      with a pv ws have more: "c = cu CHR '',''" "length cs < length s"
        "parse_elements cs (v1 # acc) = Some (v, r)"
        by (auto simp: parse_elements.simps [of s acc] split: if_splits)
      have x: "(v1, r1) = (v1, r1)" by simp
      from "2.IH"(2) [OF pv x ws False] more have "length r < length cs"
        by blast
      with more(2) show ?thesis by simp
    qed
  qed
next
  case (3 s acc)
  show ?case
  proof (intro allI impI)
    fix v r
    assume a: "parse_members s acc = Some (v, r)"
    then obtain c cs where ws: "skip_ws s = c # cs"
      by (cases "skip_ws s") (auto simp: parse_members.simps [of s acc])
    from a ws have q: "c = 0x22"
      by (auto simp: parse_members.simps [of s acc] split: if_splits)
    from a ws q obtain k r1 where ps: "parse_string cs [] = Some (k, r1)"
      by (cases "parse_string cs []") (auto simp: parse_members.simps [of s acc])
    from a ws q ps obtain c2 r2 where ws2: "skip_ws r1 = c2 # r2"
      by (cases "skip_ws r1") (auto simp: parse_members.simps [of s acc])
    from a ws q ps ws2 have colon: "c2 = cu CHR '':'' \<and> length r2 < length s"
      by (auto simp: parse_members.simps [of s acc] split: if_splits)
    from a ws q ps ws2 colon obtain v1 r3 where pv: "parse_value r2 = Some (v1, r3)"
      by (cases "parse_value r2") (auto simp: parse_members.simps [of s acc])
    have x: "(k, r1) = (k, r1)" by simp
    from "3.IH"(1) [OF ws q ps x ws2 colon] pv have r3: "length r3 < length r2"
      by blast
    from a ws q ps ws2 colon pv obtain c3 r4 where ws3: "skip_ws r3 = c3 # r4"
      by (cases "skip_ws r3") (auto simp: parse_members.simps [of s acc])
    have r4: "length r4 < length r3"
      using ws3 by (rule skip_ws_Cons_length)
    show "length r < length s \<and> (\<exists>ms. v = JObj ms)"
    proof (cases "c3 = cu CHR ''}''")
      case True
      with a ws q ps ws2 colon pv ws3 have "r = r4" "v = JObj (rev ((k, v1) # acc))"
        by (simp_all add: parse_members.simps [of s acc])
      with r4 r3 colon show ?thesis by simp
    next
      case False
      with a ws q ps ws2 colon pv ws3 have more: "c3 = cu CHR '',''" "length r4 < length s"
        "parse_members r4 ((k, v1) # acc) = Some (v, r)"
        by (auto simp: parse_members.simps [of s acc] split: if_splits)
      have y: "(v1, r3) = (v1, r3)" by simp
      from "3.IH"(2) [OF ws q ps x ws2 colon pv y ws3 False] more
      have "length r < length r4 \<and> (\<exists>ms. v = JObj ms)"
        by blast
      with more(2) show ?thesis by auto
    qed
  qed
qed

lemma parse_elements_guard:
  assumes "parse_value s = Some (v, r)" and "skip_ws r = c # cs"
  shows "length cs < length s"
  using parse_shorter(1) [of s] assms(1) skip_ws_Cons_length [OF assms(2)]
  by (meson less_trans)

lemma parse_members_guards:
  assumes "skip_ws s = c # cs" and "parse_string cs [] = Some (k, r)" and "skip_ws r = c2 # r2"
  shows "length r2 < length s"
    and "parse_value r2 = Some (v, r3) \<Longrightarrow> skip_ws r3 = c3 # r4 \<Longrightarrow> length r4 < length s"
proof -
  from skip_ws_Cons_length [OF assms(1)] parse_string_shorter [OF assms(2)]
    skip_ws_Cons_length [OF assms(3)]
  show first: "length r2 < length s"
    by linarith
  show "length r4 < length s" if "parse_value r2 = Some (v, r3)" "skip_ws r3 = c3 # r4"
    using parse_elements_guard [OF that] first by linarith
qed

text \<open>A text that begins with \<open>{\<close> parses to an object or not at all.\<close>

lemma JSON_parse_object:
  assumes "JSON_parse (cu CHR ''{'' # rest) = Some v"
  shows "\<exists>ms. v = JObj ms"
proof -
  have ws: "skip_ws (cu CHR ''{'' # rest) = cu CHR ''{'' # rest"
    by (simp add: skip_ws_def json_ws_def cu_def)
  from assms obtain r where pv: "parse_value (cu CHR ''{'' # rest) = Some (v, r)"
    by (auto simp: JSON_parse_def split: option.splits if_splits)
  show ?thesis
  proof (cases "skip_ws rest")
    case Nil
    with pv ws show ?thesis
      by (simp add: parse_value.simps [of "cu CHR ''{'' # rest"])
  next
    case (Cons d ds)
    show ?thesis
    proof (cases "d = cu CHR ''}''")
      case True
      with pv ws Cons have "v = JObj []"
        by (auto simp: parse_value.simps [of "cu CHR ''{'' # rest"])
      then show ?thesis
        by blast
    next
      case False
      with pv ws Cons have "parse_members (d # ds) [] = Some (v, r)"
        by (simp add: parse_value.simps [of "cu CHR ''{'' # rest"])
      with parse_shorter(3) [of "d # ds" "[]"] show ?thesis
        by blast
    qed
  qed
qed

section \<open>Dashboard URLs\<close>

text \<open>
  Claim C8. For a dashboard base URL \<open>u\<close> that does not end in a slash, the start endpoint,
  the complete endpoint and the viewer URL built from \<open>u\<close> and from \<open>u\<close> followed by one
  slash are the same strings.
\<close>

theorem C8_trailing_slash_tolerated:
  assumes "\<not> endsWith u (js ''/'')"
  shows "start_endpoint (u @ js ''/'') = start_endpoint u
       \<and> complete_endpoint (u @ js ''/'') = complete_endpoint u
       \<and> viewer_url (u @ js ''/'') i = viewer_url u i"
  using assms endsWith_snoc [of u "js ''/''"]
  by (simp add: start_endpoint_def complete_endpoint_def viewer_url_def
      strip_trailing_slash_def js_def)

theorem C8_trailing_slash_tolerated_witness:
  "\<not> endsWith (js ''https://dash.example'') (js ''/'')
   \<and> start_endpoint (js ''https://dash.example'' @ js ''/'') = js ''https://dash.example/api/live/start''
   \<and> start_endpoint (js ''https://dash.example'') = js ''https://dash.example/api/live/start''
   \<and> complete_endpoint (js ''https://dash.example'' @ js ''/'')
       = complete_endpoint (js ''https://dash.example'')
   \<and> viewer_url (js ''https://dash.example'' @ js ''/'') (js ''r1'')
       = viewer_url (js ''https://dash.example'') (js ''r1'')"
proof -
  have h: "\<not> endsWith (js ''https://dash.example'') (js ''/'')"
    by (simp add: endsWith_rev js_def)
  have e: "start_endpoint (js ''https://dash.example'') = js ''https://dash.example/api/live/start''"
    by (simp add: start_endpoint_def endsWith_rev js_def)
  show ?thesis
    using h e C8_trailing_slash_tolerated [OF h, of "js ''r1''"] by simp
qed

section \<open>Configuration loader\<close>

text \<open>
  Claim C1 says that a text configuration line without a separator is dropped silently and
  that an empty result is the only failure of the loader. The code drops the lines whose url
  or goal is empty after trimming, but a line without \<open>|\<close> makes \<open>goal.trim()\<close> throw:
  the configuration \<open>tests.txt\<close> below has one good line and one line without a
  separator, and loading it ends in a TypeError instead of the one test case. The same
  file with the second line replaced by lines with an empty url or goal loads.
\<close>

theorem C1_line_without_separator_throws:
  "load_tests (js ''tests.txt'') (Some (js ''http://a.example|Check headings\<newline>http://b.example''))
     = Inl TypeError
   \<and> load_tests (js ''tests.txt'') (Some (js ''http://a.example|Check headings\<newline>|no url\<newline>no goal|  ''))
     = Inr (JArr [JObj [(js ''url'', JStr (js ''http://a.example'')),
                        (js ''goal'', JStr (js ''Check headings''))]])"
  by (simp add: string_eval loader_eval)

text \<open>
  Claim C9. The format is chosen by the path alone. For a path that ends in \<open>.json\<close> the
  content goes through \<open>JSON.parse\<close>, and a parsed array is returned as it is unless it is
  empty: no entry is looked at. For any other path the content goes through the line rules
  of \<open>parse_text_config\<close>, whatever it looks like.
\<close>

theorem C9_format_by_extension:
  "(endsWith testConfigPath (js ''.json'') \<longrightarrow>
      (JSON_parse content = None \<longrightarrow> load_tests testConfigPath (Some content) = Inl SyntaxError)
    \<and> (\<forall>entries. JSON_parse content = Some (JArr entries) \<longrightarrow>
          load_tests testConfigPath (Some content) =
            (if entries = [] then Inl (Error (js ''No tests found in configuration file''))
             else Inr (JArr entries))))
   \<and> (\<not> endsWith testConfigPath (js ''.json'') \<longrightarrow>
      (\<forall>e. parse_text_config content = Inl e \<longrightarrow> load_tests testConfigPath (Some content) = Inl e)
    \<and> (\<forall>entries. parse_text_config content = Inr (JArr entries) \<longrightarrow>
          load_tests testConfigPath (Some content) =
            (if entries = [] then Inl (Error (js ''No tests found in configuration file''))
             else Inr (JArr entries))))"
  by (auto simp: load_tests_def strict_eq_zero_length)

text \<open>
  The same content under two paths: as \<open>tests.json\<close> it is a JSON array whose entries have
  no url (one is a number) and it is accepted as it is; as \<open>tests.txt\<close> it is one line
  without a separator.
\<close>

theorem C9_format_by_extension_witness:
  "endsWith (js ''tests.json'') (js ''.json'')
   \<and> JSON_parse (js ''[{\"goal\":5}, 7]'') = Some (JArr [JObj [(js ''goal'', JNum 5)], JNum 7])
   \<and> load_tests (js ''tests.json'') (Some (js ''[{\"goal\":5}, 7]''))
       = Inr (JArr [JObj [(js ''goal'', JNum 5)], JNum 7])
   \<and> \<not> endsWith (js ''tests.txt'') (js ''.json'')
   \<and> parse_text_config (js ''[{\"goal\":5}, 7]'') = Inl TypeError
   \<and> load_tests (js ''tests.txt'') (Some (js ''[{\"goal\":5}, 7]'')) = Inl TypeError"
proof -
  have p1: "endsWith (js ''tests.json'') (js ''.json'')"
    by (simp add: string_eval)
  have p2: "JSON_parse (js ''[{\"goal\":5}, 7]'') = Some (JArr [JObj [(js ''goal'', JNum 5)], JNum 7])"
    by (simp add: string_eval json_eval)
  have p3: "\<not> endsWith (js ''tests.txt'') (js ''.json'')"
    by (simp add: string_eval)
  have p4: "parse_text_config (js ''[{\"goal\":5}, 7]'') = Inl TypeError"
    by (simp add: string_eval loader_eval)
  show ?thesis
    using p1 p2 p3 p4
      C9_format_by_extension [of "js ''tests.json''" "js ''[{\"goal\":5}, 7]''"]
      C9_format_by_extension [of "js ''tests.txt''" "js ''[{\"goal\":5}, 7]''"]
    by simp
qed

section \<open>Single-test executor\<close>

lemma extract_json_no_anchor:
  "indexOf out (js ''{\"url\"'') = None \<Longrightarrow> extract_json out = None"
  by (simp add: extract_json_def)

lemma extract_json_unbalanced:
  "indexOf out (js ''{\"url\"'') = Some jsonStart \<Longrightarrow>
   find_json_end (drop jsonStart out) 0 0 = None \<Longrightarrow> extract_json out = None"
  by (simp add: extract_json_def)

lemma indexOf_from_found:
  "indexOf_from s t i = Some j \<Longrightarrow> i \<le> j \<and> prefix t (drop (j - i) s)"
proof (induction s arbitrary: i)
  case Nil
  then show ?case by (simp split: if_splits)
next
  case (Cons c cs)
  show ?case
  proof (cases "prefix t (c # cs)")
    case True
    with Cons.prems show ?thesis by simp
  next
    case False
    with Cons.prems have rec: "indexOf_from cs t (Suc i) = Some j" by simp
    from Cons.IH [OF rec] have le: "Suc i \<le> j" and p: "prefix t (drop (j - Suc i) cs)"
      by auto
    from le have "j - i = Suc (j - Suc i)" by simp
    with p le show ?thesis by simp
  qed
qed

text \<open>
  What the extractor hands to \<open>JSON.parse\<close> begins with \<open>{\<close>, so a successful parse gives an
  object: reading its properties does not throw.
\<close>

lemma extract_json_object:
  assumes "extract_json out = Some jsonStr" and "JSON_parse jsonStr = Some parsed"
  shows "\<exists>members. parsed = JObj members"
proof -
  from assms(1) obtain jsonStart jsonEnd where
    start: "indexOf out (js ''{\"url\"'') = Some jsonStart" and
    stop: "0 < jsonEnd" and
    str: "jsonStr = take jsonEnd (drop jsonStart out)"
    by (auto simp: extract_json_def split: option.splits if_splits)
  from indexOf_from_found [of out "js ''{\"url\"''" 0 jsonStart] start
  have "prefix (js ''{\"url\"'') (drop jsonStart out)"
    by (simp add: indexOf_def)
  then obtain rest where "drop jsonStart out = cu CHR ''{'' # rest"
    by (cases "drop jsonStart out") (auto simp: js_def cu_def)
  with str stop obtain rest' where "jsonStr = cu CHR ''{'' # rest'"
    by (cases jsonEnd) auto
  with assms(2) show ?thesis
    using JSON_parse_object by blast
qed

lemma error_result_not_null: "error (error_result config err dur) \<noteq> JNull"
  by (simp add: error_result_def js_or_def)

text \<open>
  Claim C3. Whatever the subprocess did, \<open>runSingleTest\<close> returns a TestResult: either the
  one built from the parsed output, or the error result; an exception inside the \<open>try\<close>
  ends in the error result too. When stdout has no \<open>{"url"\<close>, or no balanced object
  follows it, or \<open>JSON.parse\<close> throws, the result has \<open>success = false\<close>, \<open>reason = null\<close>,
  the error text (stderr if it is not empty, the fixed message otherwise), and no steps and
  no violations.
\<close>

theorem C3_runSingleTest_error_result:
  assumes "exec (agent_invocation config prov key hl path live idx dUrl dKey) = outcome"
  shows "(parse_agent_output config (stdout outcome) (elapsed outcome)
            = Inr (Some (runSingleTest exec config prov key hl path live idx dUrl dKey))
          \<or> runSingleTest exec config prov key hl path live idx dUrl dKey
            = error_result config (stderr outcome) (elapsed outcome))
       \<and> (indexOf (stdout outcome) (js ''{\"url\"'') = None
           \<or> (\<exists>jsonStart. indexOf (stdout outcome) (js ''{\"url\"'') = Some jsonStart
                  \<and> find_json_end (drop jsonStart (stdout outcome)) 0 0 = None)
           \<or> (\<exists>jsonStr. extract_json (stdout outcome) = Some jsonStr \<and> JSON_parse jsonStr = None)
           \<longrightarrow>
           runSingleTest exec config prov key hl path live idx dUrl dKey
            = \<lparr>url = url config, goal = goal config,
                success = JBool False,
                reason = JNull,
                error = JStr (if stderr outcome = [] then js ''Could not parse agent output''
                              else stderr outcome),
                steps = JArr [],
                violations = JArr [],
                duration = elapsed outcome\<rparr>
           \<and> error (runSingleTest exec config prov key hl path live idx dUrl dKey) \<noteq> JNull)"
proof -
  let ?r = "runSingleTest exec config prov key hl path live idx dUrl dKey"
  have r: "?r = result_of_outcome config outcome"
    using assms by (simp add: runSingleTest_def)
  have total: "parse_agent_output config (stdout outcome) (elapsed outcome) = Inr (Some ?r)
               \<or> ?r = error_result config (stderr outcome) (elapsed outcome)"
    unfolding r result_of_outcome_def
    by (simp split: sum.splits option.splits)
  have fallback: "?r = error_result config (stderr outcome) (elapsed outcome)"
    if "extract_json (stdout outcome) = None
        \<or> (\<exists>jsonStr. extract_json (stdout outcome) = Some jsonStr \<and> JSON_parse jsonStr = None)"
    using that unfolding r result_of_outcome_def parse_agent_output_def
    by auto
  have shape: "error_result config (stderr outcome) (elapsed outcome)
      = \<lparr>url = url config, goal = goal config, success = JBool False, reason = JNull,
          error = JStr (if stderr outcome = [] then js ''Could not parse agent output''
                        else stderr outcome),
          steps = JArr [], violations = JArr [], duration = elapsed outcome\<rparr>"
    by (simp add: error_result_def js_or_def)
  show ?thesis
    using total fallback shape error_result_not_null [of config "stderr outcome" "elapsed outcome"]
      extract_json_no_anchor [of "stdout outcome"] extract_json_unbalanced [of "stdout outcome"]
    by metis
qed

text \<open>
  Three subprocess outcomes: no anchor in stdout and an empty stderr; an anchor whose brace
  never closes, with text on stderr; a brace inside a string, after which the extracted text
  is not JSON.
\<close>

theorem C3_runSingleTest_error_result_witness:
  "indexOf (js ''npm ERR! missing script'') (js ''{\"url\"'') = None
   \<and> runSingleTest (\<lambda>inv. \<lparr>stdout = js ''npm ERR! missing script'', stderr = [], elapsed = 40\<rparr>)
        \<lparr>url = JStr (js ''http://x''), goal = JStr (js ''g1'')\<rparr> (js ''openai'') (js ''key'') True
        (js ''/work'') JNull 0 None None
      = \<lparr>url = JStr (js ''http://x''), goal = JStr (js ''g1''), success = JBool False,
          reason = JNull, error = JStr (js ''Could not parse agent output''),
          steps = JArr [], violations = JArr [], duration = 40\<rparr>
   \<and> indexOf (js ''log {\"url\":{\"a\":1}'') (js ''{\"url\"'') = Some 4
   \<and> find_json_end (drop 4 (js ''log {\"url\":{\"a\":1}'')) 0 0 = None
   \<and> runSingleTest (\<lambda>inv. \<lparr>stdout = js ''log {\"url\":{\"a\":1}'', stderr = js ''killed'', elapsed = 7\<rparr>)
        \<lparr>url = JStr (js ''http://x''), goal = JStr (js ''g1'')\<rparr> (js ''openai'') (js ''key'') True
        (js ''/work'') JNull 0 None None
      = \<lparr>url = JStr (js ''http://x''), goal = JStr (js ''g1''), success = JBool False,
          reason = JNull, error = JStr (js ''killed''),
          steps = JArr [], violations = JArr [], duration = 7\<rparr>
   \<and> extract_json (js ''{\"url\":\"}\"}'') = Some (js ''{\"url\":\"}'')
   \<and> JSON_parse (js ''{\"url\":\"}'') = None
   \<and> success (runSingleTest (\<lambda>inv. \<lparr>stdout = js ''{\"url\":\"}\"}'', stderr = [], elapsed = 7\<rparr>)
        \<lparr>url = JStr (js ''http://x''), goal = JStr (js ''g1'')\<rparr> (js ''openai'') (js ''key'') True
        (js ''/work'') JNull 0 None None) = JBool False"
proof -
  let ?cfg = "\<lparr>url = JStr (js ''http://x''), goal = JStr (js ''g1'')\<rparr>"
  let ?o1 = "\<lparr>stdout = js ''npm ERR! missing script'', stderr = [], elapsed = 40\<rparr>"
  let ?o2 = "\<lparr>stdout = js ''log {\"url\":{\"a\":1}'', stderr = js ''killed'', elapsed = 7\<rparr>"
  let ?o3 = "\<lparr>stdout = js ''{\"url\":\"}\"}'', stderr = [], elapsed = 7\<rparr>"
  have a1: "indexOf (js ''npm ERR! missing script'') (js ''{\"url\"'') = None"
    by (simp add: string_eval)
  have a2: "indexOf (js ''log {\"url\":{\"a\":1}'') (js ''{\"url\"'') = Some 4"
    by (simp add: string_eval)
  have a3: "find_json_end (drop 4 (js ''log {\"url\":{\"a\":1}'')) 0 0 = None"
    by (simp add: string_eval)
  have a4: "extract_json (js ''{\"url\":\"}\"}'') = Some (js ''{\"url\":\"}'')"
    by (simp add: string_eval extract_json_def)
  have a5: "JSON_parse (js ''{\"url\":\"}'') = None"
    by (simp add: string_eval json_eval)
  have a4': "\<exists>jsonStr. extract_json (js ''{\"url\":\"}\"}'') = Some jsonStr \<and> JSON_parse jsonStr = None"
    using a4 a5 by blast
  show ?thesis
    using a1 a2 a3 a4 a5 a4'
      C3_runSingleTest_error_result [of "\<lambda>inv. ?o1" ?cfg "js ''openai''" "js ''key''" True
        "js ''/work''" JNull 0 None None ?o1]
      C3_runSingleTest_error_result [of "\<lambda>inv. ?o2" ?cfg "js ''openai''" "js ''key''" True
        "js ''/work''" JNull 0 None None ?o2]
      C3_runSingleTest_error_result [of "\<lambda>inv. ?o3" ?cfg "js ''openai''" "js ''key''" True
        "js ''/work''" JNull 0 None None ?o3]
    by (simp add: js_def)
qed

text \<open>
  Claim C10. When an object was extracted and parsed, each field of the TestResult is the
  parsed property if that is truthy and the default otherwise: \<open>success\<close> defaults to
  \<open>false\<close>, \<open>reason\<close> and \<open>error\<close> to \<open>null\<close>, \<open>steps\<close> and \<open>violations\<close> to the empty
  array. So a property that is present but falsy is replaced by the default, and a truthy
  \<open>success\<close> of any type is kept as it is and counts as a pass. By \<open>extract_json_object\<close>
  every value parsed from an extracted text is an object, so the third assumption is the
  general case of a successful parse.
\<close>

theorem C10_defaults_by_truthiness:
  assumes "exec (agent_invocation config prov key hl path live idx dUrl dKey) = outcome"
      and "extract_json (stdout outcome) = Some jsonStr"
      and "JSON_parse jsonStr = Some (JObj members)"
  shows "runSingleTest exec config prov key hl path live idx dUrl dKey
           = \<lparr>url = url config, goal = goal config,
               success = (if truthy (field (JObj members) (js ''success''))
                          then field (JObj members) (js ''success'') else JBool False),
               reason = (if truthy (field (JObj members) (js ''reason''))
                         then field (JObj members) (js ''reason'') else JNull),
               error = (if truthy (field (JObj members) (js ''error''))
                        then field (JObj members) (js ''error'') else JNull),
               steps = (if truthy (field (JObj members) (js ''steps''))
                        then field (JObj members) (js ''steps'') else JArr []),
               violations = (if truthy (field (JObj members) (js ''violations''))
                             then field (JObj members) (js ''violations'') else JArr []),
               duration = elapsed outcome\<rparr>
       \<and> (\<forall>v. map_of (rev members) (js ''success'') = Some v \<and> \<not> truthy v \<longrightarrow>
              success (runSingleTest exec config prov key hl path live idx dUrl dKey) = JBool False)
       \<and> (\<forall>v. map_of (rev members) (js ''reason'') = Some v \<and> \<not> truthy v \<longrightarrow>
              reason (runSingleTest exec config prov key hl path live idx dUrl dKey) = JNull)
       \<and> (\<forall>v. map_of (rev members) (js ''error'') = Some v \<and> \<not> truthy v \<longrightarrow>
              error (runSingleTest exec config prov key hl path live idx dUrl dKey) = JNull)
       \<and> (\<forall>v. map_of (rev members) (js ''success'') = Some v \<and> truthy v \<longrightarrow>
              success (runSingleTest exec config prov key hl path live idx dUrl dKey) = v
              \<and> passed_count [runSingleTest exec config prov key hl path live idx dUrl dKey] = 1)"
proof -
  let ?r = "runSingleTest exec config prov key hl path live idx dUrl dKey"
  have r: "?r = \<lparr>url = url config, goal = goal config,
               success = (if truthy (field (JObj members) (js ''success''))
                          then field (JObj members) (js ''success'') else JBool False),
               reason = (if truthy (field (JObj members) (js ''reason''))
                         then field (JObj members) (js ''reason'') else JNull),
               error = (if truthy (field (JObj members) (js ''error''))
                        then field (JObj members) (js ''error'') else JNull),
               steps = (if truthy (field (JObj members) (js ''steps''))
                        then field (JObj members) (js ''steps'') else JArr []),
               violations = (if truthy (field (JObj members) (js ''violations''))
                             then field (JObj members) (js ''violations'') else JArr []),
               duration = elapsed outcome\<rparr>"
    using assms
    by (simp add: runSingleTest_def result_of_outcome_def parse_agent_output_def
        result_of_parsed_def js_or_def field_def)
  have get: "field (JObj members) k = v" if "map_of (rev members) k = Some v" for k v
    using that by (simp add: field_def)
  show ?thesis
    unfolding r by (auto simp: get passed_count_def)
qed

text \<open>
  An agent that prints \<open>success: 0\<close> with an empty reason and an empty error, and one that
  prints \<open>success: "yes"\<close>.
\<close>

theorem C10_defaults_by_truthiness_witness:
  "extract_json (js ''{\"url\":\"x\",\"success\":0,\"reason\":\"\",\"error\":\"\"}'')
     = Some (js ''{\"url\":\"x\",\"success\":0,\"reason\":\"\",\"error\":\"\"}'')
   \<and> JSON_parse (js ''{\"url\":\"x\",\"success\":0,\"reason\":\"\",\"error\":\"\"}'')
     = Some (JObj [(js ''url'', JStr (js ''x'')), (js ''success'', JNum 0),
                   (js ''reason'', JStr []), (js ''error'', JStr [])])
   \<and> runSingleTest
        (\<lambda>inv. \<lparr>stdout = js ''{\"url\":\"x\",\"success\":0,\"reason\":\"\",\"error\":\"\"}'',
                 stderr = js ''warn'', elapsed = 9\<rparr>)
        \<lparr>url = JStr (js ''x''), goal = JStr (js ''g'')\<rparr> (js ''openai'') (js ''key'') True
        (js ''/work'') JNull 0 None None
     = \<lparr>url = JStr (js ''x''), goal = JStr (js ''g''), success = JBool False, reason = JNull,
         error = JNull, steps = JArr [], violations = JArr [], duration = 9\<rparr>
   \<and> extract_json (js ''{\"url\":\"x\",\"success\":\"yes\"}'')
     = Some (js ''{\"url\":\"x\",\"success\":\"yes\"}'')
   \<and> JSON_parse (js ''{\"url\":\"x\",\"success\":\"yes\"}'')
     = Some (JObj [(js ''url'', JStr (js ''x'')), (js ''success'', JStr (js ''yes''))])
   \<and> success (runSingleTest
        (\<lambda>inv. \<lparr>stdout = js ''{\"url\":\"x\",\"success\":\"yes\"}'', stderr = [], elapsed = 9\<rparr>)
        \<lparr>url = JStr (js ''x''), goal = JStr (js ''g'')\<rparr> (js ''openai'') (js ''key'') True
        (js ''/work'') JNull 0 None None) = JStr (js ''yes'')
   \<and> passed_count [runSingleTest
        (\<lambda>inv. \<lparr>stdout = js ''{\"url\":\"x\",\"success\":\"yes\"}'', stderr = [], elapsed = 9\<rparr>)
        \<lparr>url = JStr (js ''x''), goal = JStr (js ''g'')\<rparr> (js ''openai'') (js ''key'') True
        (js ''/work'') JNull 0 None None] = 1"
proof -
  let ?cfg = "\<lparr>url = JStr (js ''x''), goal = JStr (js ''g'')\<rparr>"
  let ?s1 = "js ''{\"url\":\"x\",\"success\":0,\"reason\":\"\",\"error\":\"\"}''"
  let ?s2 = "js ''{\"url\":\"x\",\"success\":\"yes\"}''"
  let ?o1 = "\<lparr>stdout = ?s1, stderr = js ''warn'', elapsed = 9\<rparr>"
  let ?o2 = "\<lparr>stdout = ?s2, stderr = [], elapsed = 9\<rparr>"
  let ?m1 = "[(js ''url'', JStr (js ''x'')), (js ''success'', JNum 0),
              (js ''reason'', JStr []), (js ''error'', JStr [])]"
  let ?m2 = "[(js ''url'', JStr (js ''x'')), (js ''success'', JStr (js ''yes''))]"
  have e1: "extract_json ?s1 = Some ?s1"
    by (simp add: string_eval extract_json_def)
  have p1: "JSON_parse ?s1 = Some (JObj ?m1)"
    by (simp add: string_eval json_eval)
  have e2: "extract_json ?s2 = Some ?s2"
    by (simp add: string_eval extract_json_def)
  have p2: "JSON_parse ?s2 = Some (JObj ?m2)"
    by (simp add: string_eval json_eval)
  have f1: "field (JObj ?m1) (js ''success'') = JNum 0" "field (JObj ?m1) (js ''reason'') = JStr []"
    "field (JObj ?m1) (js ''error'') = JStr []" "field (JObj ?m1) (js ''steps'') = JUndefined"
    "field (JObj ?m1) (js ''violations'') = JUndefined"
    by (simp_all add: field_def js_def)
  have f2: "map_of (rev ?m2) (js ''success'') = Some (JStr (js ''yes''))" "truthy (JStr (js ''yes''))"
    by (simp_all add: js_def)
  have r1: "runSingleTest (\<lambda>inv. ?o1) ?cfg (js ''openai'') (js ''key'') True (js ''/work'') JNull 0 None None
      = \<lparr>url = JStr (js ''x''), goal = JStr (js ''g''), success = JBool False, reason = JNull,
          error = JNull, steps = JArr [], violations = JArr [], duration = 9\<rparr>"
    using C10_defaults_by_truthiness [of "\<lambda>inv. ?o1" ?cfg "js ''openai''" "js ''key''" True
        "js ''/work''" JNull 0 None None ?o1 ?s1 ?m1] e1 p1
    by (simp add: f1 double_is_zero_def)
  have x2: "(\<lambda>inv. ?o2) (agent_invocation ?cfg (js ''openai'') (js ''key'') True (js ''/work'')
                JNull 0 None None) = ?o2"
    by simp
  have y2: "extract_json (stdout ?o2) = Some ?s2"
    using e2 by simp
  note c2 = C10_defaults_by_truthiness [OF x2 y2 p2]
  have r2: "success (runSingleTest (\<lambda>inv. ?o2) ?cfg (js ''openai'') (js ''key'') True (js ''/work'') JNull 0 None None)
        = JStr (js ''yes'')
      \<and> passed_count [runSingleTest (\<lambda>inv. ?o2) ?cfg (js ''openai'') (js ''key'') True (js ''/work'') JNull 0 None None] = 1"
    using c2 f2 by blast
  show ?thesis
    using e1 p1 r1 e2 p2 r2 by simp
qed

subsection \<open>The extractor\<close>

lemma indexOf_from_first:
  assumes "prefix t rest"
      and "\<forall>k<length pre. \<not> prefix t (drop k (pre @ rest))"
  shows "indexOf_from (pre @ rest) t i = Some (i + length pre)"
  using assms
proof (induction pre arbitrary: i)
  case Nil
  then show ?case by (cases rest) auto
next
  case (Cons p ps)
  from Cons.prems(2) have "\<not> prefix t (drop 0 ((p # ps) @ rest))"
    by blast
  then have here: "\<not> prefix t (p # ps @ rest)"
    by simp
  have later: "\<forall>k<length ps. \<not> prefix t (drop k (ps @ rest))"
  proof (intro allI impI)
    fix k
    assume "k < length ps"
    then have "Suc k < length (p # ps)" by simp
    with Cons.prems(2) have "\<not> prefix t (drop (Suc k) ((p # ps) @ rest))"
      by blast
    then show "\<not> prefix t (drop k (ps @ rest))" by simp
  qed
  show ?case
    using here Cons.IH [OF Cons.prems(1) later, of "Suc i"] by simp
qed

lemma brace_depth_take_Suc:
  "brace_depth (take (Suc k) (c # cs)) =
     (if c = cu CHR ''{'' then 1 else if c = cu CHR ''}'' then - 1 else 0) + brace_depth (take k cs)"
  by simp

text \<open>
  The loop started inside an open brace (\<open>braceCount = n > 0\<close>) on a text whose braces keep
  the count positive until its end, where the count becomes 0, stops at the end of that
  text, whatever follows.
\<close>

lemma find_json_end_balanced:
  assumes "0 < n"
      and "\<forall>k<length s. 0 < n + brace_depth (take k s)"
      and "n + brace_depth s = 0"
  shows "find_json_end (s @ post) i n = Some (i + length s)"
  using assms
proof (induction s arbitrary: i n)
  case Nil
  then show ?case by simp
next
  case (Cons c cs)
  let ?d = "(if c = cu CHR ''{'' then 1 else if c = cu CHR ''}'' then - 1 else 0) :: int"
  have total: "n + ?d + brace_depth cs = 0"
    using Cons.prems(3) by simp
  have prefixes: "\<forall>k<length cs. 0 < n + ?d + brace_depth (take k cs)"
  proof (intro allI impI)
    fix k
    assume "k < length cs"
    then have "Suc k < length (c # cs)" by simp
    with Cons.prems(2) have "0 < n + brace_depth (take (Suc k) (c # cs))"
      by blast
    then show "0 < n + ?d + brace_depth (take k cs)"
      by (simp only: brace_depth_take_Suc)
  qed
  show ?case
  proof (cases "cs = []")
    case True
    with total Cons.prems(1) have "c = cu CHR ''}'' \<and> n - 1 = 0"
      by (auto split: if_splits)
    with True show ?thesis
      by (auto simp: cu_def)
  next
    case False
    then have "0 < length cs" by simp
    with prefixes have pos: "0 < n + ?d + brace_depth (take 0 cs)"
      by blast
    then have pos': "0 < n + ?d" by simp
    have "find_json_end (cs @ post) (Suc i) (n + ?d) = Some (Suc i + length cs)"
      by (rule Cons.IH [OF pos' prefixes total])
    moreover have "find_json_end ((c # cs) @ post) i n = find_json_end (cs @ post) (Suc i) (n + ?d)"
      using pos' by (auto simp: cu_def)
    ultimately show ?thesis by simp
  qed
qed

lemma all_between_list_all: "(\<forall>k. 0 < k \<and> k < n \<longrightarrow> P k) = list_all P [1..<n]"
  by (auto simp: list_all_iff)

text \<open>
  Claim C2 says that the extractor recovers every well-formed JSON object that begins with
  \<open>{"url"\<close>, wherever it stands in stdout. The extractor counts braces without reading
  JSON, so this fails in two ways. A brace inside a string value ends the scan early: from
  the object \<open>{"url":"}"}\<close> it takes \<open>{"url":"}\<close>. And the scan starts at the first
  \<open>{"url"\<close> of stdout, which may be in the log text before the object: then nothing
  is extracted.
\<close>

theorem C2_extractor_counterexample:
  "JSON_parse (js ''{\"url\":\"}\"}'') = Some (JObj [(js ''url'', JStr (js ''}''))])
   \<and> startsWith (js ''{\"url\":\"}\"}'') (js ''{\"url\"'')
   \<and> extract_json (js ''log '' @ js ''{\"url\":\"}\"}'' @ js '' done'') = Some (js ''{\"url\":\"}'')
   \<and> extract_json (js ''log '' @ js ''{\"url\":\"}\"}'' @ js '' done'') \<noteq> Some (js ''{\"url\":\"}\"}'')
   \<and> JSON_parse (js ''{\"url\":\"x\"}'') = Some (JObj [(js ''url'', JStr (js ''x''))])
   \<and> extract_json (js ''sent {\"url\" to agent '' @ js ''{\"url\":\"x\"}'' @ []) = None"
proof -
  have "JSON_parse (js ''{\"url\":\"}\"}'') = Some (JObj [(js ''url'', JStr (js ''}''))])"
    by (simp add: string_eval json_eval)
  moreover have "startsWith (js ''{\"url\":\"}\"}'') (js ''{\"url\"'')"
    by (simp add: string_eval)
  moreover have "extract_json (js ''log '' @ js ''{\"url\":\"}\"}'' @ js '' done'') = Some (js ''{\"url\":\"}'')"
    by (simp add: string_eval extract_json_def)
  moreover have "js ''{\"url\":\"}'' \<noteq> js ''{\"url\":\"}\"}''"
    by (simp add: js_def)
  moreover have "JSON_parse (js ''{\"url\":\"x\"}'') = Some (JObj [(js ''url'', JStr (js ''x''))])"
    by (simp add: string_eval json_eval)
  moreover have "extract_json (js ''sent {\"url\" to agent '' @ js ''{\"url\":\"x\"}'' @ []) = None"
    by (simp add: string_eval extract_json_def)
  ultimately show ?thesis by simp
qed

text \<open>
  Claim C2, amended. Let stdout be \<open>pre @ obj @ post\<close>, where \<open>obj\<close> begins with
  \<open>{"url"\<close>. If the first occurrence of \<open>{"url"\<close> in stdout is the start of \<open>obj\<close>, and the
  braces of \<open>obj\<close> (all of them, also those inside string values) balance at its end and
  not before, then the extractor returns exactly \<open>obj\<close>, whatever \<open>pre\<close> and \<open>post\<close> are.
\<close>

theorem C2_extractor_recovers_object:
  assumes "startsWith obj (js ''{\"url\"'')"
      and "\<forall>k<length pre. \<not> startsWith (drop k (pre @ obj @ post)) (js ''{\"url\"'')"
      and "brace_depth obj = 0"
      and "\<forall>k. 0 < k \<and> k < length obj \<longrightarrow> 0 < brace_depth (take k obj)"
  shows "extract_json (pre @ obj @ post) = Some obj"
proof -
  have anchor: "js ''{\"url\"'' = cu CHR ''{'' # js ''\"url\"''"
    by (simp add: js_def cu_def)
  from assms(1) obtain rest where obj: "obj = cu CHR ''{'' # rest"
    unfolding startsWith_def anchor by (cases obj) auto
  have start: "indexOf (pre @ obj @ post) (js ''{\"url\"'') = Some (length pre)"
    unfolding indexOf_def
    using indexOf_from_first [of "js ''{\"url\"''" "obj @ post" pre 0] assms(1,2)
    by (simp add: startsWith_def)
  have rest_total: "1 + brace_depth rest = 0"
    using assms(3) obj by simp
  have rest_prefixes: "\<forall>k<length rest. 0 < 1 + brace_depth (take k rest)"
  proof (intro allI impI)
    fix k
    assume "k < length rest"
    then have "0 < Suc k \<and> Suc k < length obj"
      using obj by simp
    with assms(4) have "0 < brace_depth (take (Suc k) obj)"
      by blast
    then show "0 < 1 + brace_depth (take k rest)"
      using obj by simp
  qed
  have "find_json_end (rest @ post) 1 1 = Some (1 + length rest)"
    by (rule find_json_end_balanced [OF _ rest_prefixes rest_total]) simp
  then have stop: "find_json_end (obj @ post) 0 0 = Some (length obj)"
    using obj by simp
  show ?thesis
    using start stop obj by (simp add: extract_json_def)
qed

text \<open>An object with a nested object and an array, between two lines of log text.\<close>

theorem C2_extractor_recovers_object_witness:
  "startsWith (js ''{\"url\":\"x\",\"steps\":[{\"n\":1}]}'') (js ''{\"url\"'')
   \<and> indexOf (js ''npm run\<newline>'' @ js ''{\"url\":\"x\",\"steps\":[{\"n\":1}]}'' @ js ''\<newline>done {}'')
         (js ''{\"url\"'') = Some (length (js ''npm run\<newline>''))
   \<and> brace_depth (js ''{\"url\":\"x\",\"steps\":[{\"n\":1}]}'') = 0
   \<and> extract_json (js ''npm run\<newline>'' @ js ''{\"url\":\"x\",\"steps\":[{\"n\":1}]}'' @ js ''\<newline>done {}'')
       = Some (js ''{\"url\":\"x\",\"steps\":[{\"n\":1}]}'')"
proof -
  let ?obj = "js ''{\"url\":\"x\",\"steps\":[{\"n\":1}]}''"
  let ?pre = "js ''npm run\<newline>''"
  let ?post = "js ''\<newline>done {}''"
  have h1: "startsWith ?obj (js ''{\"url\"'')"
    by (simp add: string_eval)
  have "list_all (\<lambda>k. \<not> startsWith (drop k (?pre @ ?obj @ ?post)) (js ''{\"url\"'')) [0..<length ?pre]"
    by (simp add: string_eval upt_rec_numeral)
  then have h2: "\<forall>k<length ?pre. \<not> startsWith (drop k (?pre @ ?obj @ ?post)) (js ''{\"url\"'')"
    by (simp add: list_all_iff)
  have h3: "brace_depth ?obj = 0"
    by (simp add: string_eval)
  have "list_all (\<lambda>k. 0 < brace_depth (take k ?obj)) [1..<length ?obj]"
    by (simp add: string_eval upt_rec_numeral)
  then have h4: "\<forall>k. 0 < k \<and> k < length ?obj \<longrightarrow> 0 < brace_depth (take k ?obj)"
    by (simp only: all_between_list_all)
  have first: "indexOf (?pre @ ?obj @ ?post) (js ''{\"url\"'') = Some (length ?pre)"
    by (simp add: string_eval)
  show ?thesis
    using h1 first h3 C2_extractor_recovers_object [OF h1 h2 h3 h4] by simp
qed

section \<open>Orchestration loop\<close>

lemma result_of_outcome_config:
  "url (result_of_outcome config outcome) = url config
   \<and> goal (result_of_outcome config outcome) = goal config"
  by (simp add: result_of_outcome_def parse_agent_output_def result_of_parsed_def
      error_result_def split: option.splits sum.splits)

lemma result_of_outcome_success:
  "truthy (success (result_of_outcome config outcome))
   \<or> success (result_of_outcome config outcome) = JBool False"
  by (simp add: result_of_outcome_def parse_agent_output_def result_of_parsed_def
      error_result_def js_or_def split: option.splits sum.splits)

lemma run_test_config:
  "url (run_test exec cfg live t i) = url t \<and> goal (run_test exec cfg live t i) = goal t"
  by (simp add: run_test_def runSingleTest_def result_of_outcome_config)

lemma run_test_failed_iff:
  "(\<not> truthy (success (run_test exec cfg live t i)))
   = (success (run_test exec cfg live t i) = JBool False)"
  using result_of_outcome_success [of t]
  by (auto simp: run_test_def runSingleTest_def)

lemma to_config_total: "t \<noteq> JNull \<Longrightarrow> t \<noteq> JUndefined \<Longrightarrow> \<exists>c. to_config t = Inr c"
  by (cases t) (simp_all add: to_config_def)

text \<open>
  The invariant of the loop, from any index \<open>i\<close>: what a completed loop appends to
  \<open>results\<close> are the results of the tests \<open>i, i + 1, ...\<close> in order; it stops before the end
  of the list only at a failed test with continue-on-failure off, and then the failed
  result is the last one; \<open>hasFailure\<close> is set exactly when an appended result failed.
\<close>

lemma run_loop_invariant:
  assumes "run_loop exec cfg live tests i results hf = Inr (rs, hf')"
  shows "\<exists>new. rs = results @ new
           \<and> i + length new \<le> max i (length tests)
           \<and> (\<forall>j<length new. \<exists>t. to_config (tests ! (i + j)) = Inr t
                                  \<and> new ! j = run_test exec cfg live t (i + j))
           \<and> (i + length new < length tests \<longrightarrow>
                \<not> continueOnFailure cfg \<and> new \<noteq> [] \<and> \<not> truthy (success (last new)))
           \<and> (\<not> continueOnFailure cfg \<longrightarrow> (\<forall>j. Suc j < length new \<longrightarrow> truthy (success (new ! j))))
           \<and> (hf' = (hf \<or> (\<exists>r\<in>set new. \<not> truthy (success r))))"
  using assms
proof (induction exec cfg live tests i results hf rule: run_loop.induct)
  case (1 exec cfg live tests i results hf)
  show ?case
  proof (cases "i < length tests")
    case False
    with "1.prems" have "rs = results" "hf' = hf"
      by (simp_all add: run_loop.simps [of exec cfg live tests i results hf])
    with False show ?thesis
      by (intro exI [of _ "[]"]) simp
  next
    case True
    from True "1.prems" obtain test where test: "to_config (tests ! i) = Inr test"
      by (cases "to_config (tests ! i)")
         (simp_all add: run_loop.simps [of exec cfg live tests i results hf])
    from True test "1.prems"
    have print: "\<not> (toString_throws (url test) \<or> toString_throws (goal test))"
      by (auto simp add: run_loop.simps [of exec cfg live tests i results hf])
    let ?r = "run_test exec cfg live test i"
    show ?thesis
    proof (cases "truthy (success ?r)")
      case passed: True
      from True test print passed "1.prems"
      have msg: "\<not> toString_throws (passedReason ?r)"
        by (auto simp add: run_loop.simps [of exec cfg live tests i results hf])
      from True test print passed msg "1.prems"
      have rec: "run_loop exec cfg live tests (Suc i) (results @ [?r]) hf = Inr (rs, hf')"
        by (simp add: run_loop.simps [of exec cfg live tests i results hf])
      from "1.IH"(1) [OF True test print passed msg rec] obtain new where
        n1: "rs = (results @ [?r]) @ new" and
        n2: "Suc i + length new \<le> max (Suc i) (length tests)" and
        n3: "\<forall>j<length new. \<exists>t. to_config (tests ! (Suc i + j)) = Inr t
                                  \<and> new ! j = run_test exec cfg live t (Suc i + j)" and
        n4: "Suc i + length new < length tests \<longrightarrow>
                \<not> continueOnFailure cfg \<and> new \<noteq> [] \<and> \<not> truthy (success (last new))" and
        n5: "\<not> continueOnFailure cfg \<longrightarrow> (\<forall>j. Suc j < length new \<longrightarrow> truthy (success (new ! j)))" and
        n6: "hf' = (hf \<or> (\<exists>r\<in>set new. \<not> truthy (success r)))"
        by blast
      have m3: "\<forall>j<length (?r # new). \<exists>t. to_config (tests ! (i + j)) = Inr t
                                  \<and> (?r # new) ! j = run_test exec cfg live t (i + j)"
      proof (intro allI impI)
        fix j
        assume j: "j < length (?r # new)"
        show "\<exists>t. to_config (tests ! (i + j)) = Inr t \<and> (?r # new) ! j = run_test exec cfg live t (i + j)"
        proof (cases j)
          case 0
          with test show ?thesis by simp
        next
          case (Suc k)
          with j n3 show ?thesis by simp
        qed
      qed
      have m5: "\<not> continueOnFailure cfg \<longrightarrow>
                  (\<forall>j. Suc j < length (?r # new) \<longrightarrow> truthy (success ((?r # new) ! j)))"
      proof (intro allI impI)
        fix j
        assume c: "\<not> continueOnFailure cfg" and j: "Suc j < length (?r # new)"
        show "truthy (success ((?r # new) ! j))"
        proof (cases j)
          case 0
          with passed show ?thesis by simp
        next
          case (Suc k)
          with j n5 c show ?thesis by simp
        qed
      qed
      show ?thesis
        using n1 n2 True m3 n4 m5 n6 passed
        by (intro exI [of _ "?r # new"]) auto
    next
      case failed: False
      from True test print failed "1.prems"
      have msg: "\<not> toString_throws (failReason ?r)"
        by (auto simp add: run_loop.simps [of exec cfg live tests i results hf])
      show ?thesis
      proof (cases "continueOnFailure cfg")
        case stop: False
        from True test print failed msg stop "1.prems" have "rs = results @ [?r]" "hf' = True"
          by (simp_all add: run_loop.simps [of exec cfg live tests i results hf])
        with True test failed stop show ?thesis
          by (intro exI [of _ "[?r]"]) simp
      next
        case continue: True
        from True test print failed msg continue "1.prems"
        have rec: "run_loop exec cfg live tests (Suc i) (results @ [?r]) True = Inr (rs, hf')"
          by (simp add: run_loop.simps [of exec cfg live tests i results hf])
        from "1.IH"(2) [OF True test print failed msg _ rec] continue obtain new where
          n1: "rs = (results @ [?r]) @ new" and
          n2: "Suc i + length new \<le> max (Suc i) (length tests)" and
          n3: "\<forall>j<length new. \<exists>t. to_config (tests ! (Suc i + j)) = Inr t
                                    \<and> new ! j = run_test exec cfg live t (Suc i + j)" and
          n4: "Suc i + length new < length tests \<longrightarrow>
                  \<not> continueOnFailure cfg \<and> new \<noteq> [] \<and> \<not> truthy (success (last new))" and
          n6: "hf' = (True \<or> (\<exists>r\<in>set new. \<not> truthy (success r)))"
          by blast
        have m3: "\<forall>j<length (?r # new). \<exists>t. to_config (tests ! (i + j)) = Inr t
                                    \<and> (?r # new) ! j = run_test exec cfg live t (i + j)"
        proof (intro allI impI)
          fix j
          assume j: "j < length (?r # new)"
          show "\<exists>t. to_config (tests ! (i + j)) = Inr t \<and> (?r # new) ! j = run_test exec cfg live t (i + j)"
          proof (cases j)
            case 0
            with test show ?thesis by simp
          next
            case (Suc k)
            with j n3 show ?thesis by simp
          qed
        qed
        show ?thesis
          using n1 n2 True m3 n4 n6 failed continue
          by (intro exI [of _ "?r # new"]) auto
      qed
    qed
  qed
qed

text \<open>
  The loop completes when every entry of the configuration has properties (it is not
  \<open>null\<close> or \<open>undefined\<close>) and everything that is printed has a string rendering: the url
  and the goal of each test, and the message of its result.
\<close>

lemma run_loop_completes:
  assumes "\<forall>j<length tests. \<exists>t. to_config (tests ! j) = Inr t
             \<and> \<not> toString_throws (url t) \<and> \<not> toString_throws (goal t)
             \<and> \<not> toString_throws
                   (if truthy (success (run_test exec cfg live t j))
                    then passedReason (run_test exec cfg live t j)
                    else failReason (run_test exec cfg live t j))"
  shows "\<exists>rs hf'. run_loop exec cfg live tests i results hf = Inr (rs, hf')"
  using assms
proof (induction exec cfg live tests i results hf rule: run_loop.induct)
  case (1 exec cfg live tests i results hf)
  show ?case
  proof (cases "i < length tests")
    case False
    then show ?thesis
      by (simp add: run_loop.simps [of exec cfg live tests i results hf])
  next
    case True
    with "1.prems" obtain test where test: "to_config (tests ! i) = Inr test"
      and print: "\<not> (toString_throws (url test) \<or> toString_throws (goal test))"
      and msg: "\<not> toString_throws
                   (if truthy (success (run_test exec cfg live test i))
                    then passedReason (run_test exec cfg live test i)
                    else failReason (run_test exec cfg live test i))"
      by blast
    let ?r = "run_test exec cfg live test i"
    show ?thesis
    proof (cases "truthy (success ?r)")
      case passed: True
      with msg have m: "\<not> toString_throws (passedReason ?r)"
        by simp
      from "1.IH"(1) [OF True test print passed m "1.prems"] True test print passed m
      show ?thesis
        by (simp add: run_loop.simps [of exec cfg live tests i results hf])
    next
      case failed: False
      with msg have m: "\<not> toString_throws (failReason ?r)"
        by simp
      show ?thesis
      proof (cases "continueOnFailure cfg")
        case False
        with True test print failed m show ?thesis
          by (auto simp add: run_loop.simps [of exec cfg live tests i results hf])
      next
        case True
        then have c: "\<not> \<not> continueOnFailure cfg"
          by simp
        from "1.IH"(2) [OF \<open>i < length tests\<close> test print failed m c "1.prems"]
          \<open>i < length tests\<close> test print failed m True
        show ?thesis
          by (simp add: run_loop.simps [of exec cfg live tests i results hf])
      qed
    qed
  qed
qed

lemma run_tests_Inr:
  assumes "run_tests render github fetch exec d cfg tests = Inr rep"
  shows "\<exists>rs hf. run_loop exec cfg (snd (start_phase github fetch cfg tests)) tests 0 [] False
                    = Inr (rs, hf)
                \<and> rep = finish (fst (start_phase github fetch cfg tests)) rs hf
                          (complete_phase render fetch cfg (snd (start_phase github fetch cfg tests))
                             rs d)"
  using assms
  by (auto simp: run_tests_def split: prod.splits sum.splits if_splits)

lemma produced_finish: "produced (finish started rs hf completed) = rs"
  by (simp add: finish_def)

text \<open>
  Claim C4. The run completes when the run id, if there is one, has a string rendering,
  every entry of the configuration has properties (it is not \<open>null\<close> or \<open>undefined\<close>) and
  the url, the goal and the result message printed for each test have a string rendering;
  otherwise an exception may end it before any output is set. For every completed run:
  there are at most as many results as test cases; result \<open>j\<close> is the result of executing
  test case \<open>j\<close> (as call number \<open>j\<close>) and carries its url and goal; there are fewer
  results than test cases only if continue-on-failure is off and the last result failed; and
  with continue-on-failure off every result before the last one passed, so nothing follows
  a failure.
\<close>

theorem C4_results_follow_tests:
  "((\<not> truthy (snd (start_phase github fetch cfg tests))
       \<or> \<not> toString_throws (snd (start_phase github fetch cfg tests)))
     \<and> (\<forall>j<length tests. \<exists>t. to_config (tests ! j) = Inr t
            \<and> \<not> toString_throws (url t) \<and> \<not> toString_throws (goal t)
            \<and> \<not> toString_throws
                  (if truthy (success (run_test exec cfg (snd (start_phase github fetch cfg tests)) t j))
                   then passedReason (run_test exec cfg (snd (start_phase github fetch cfg tests)) t j)
                   else failReason (run_test exec cfg (snd (start_phase github fetch cfg tests)) t j)))
     \<longrightarrow> (\<exists>rep. run_tests render github fetch exec d cfg tests = Inr rep))
   \<and> (\<forall>rep. run_tests render github fetch exec d cfg tests = Inr rep \<longrightarrow>
        length (produced rep) \<le> length tests
      \<and> (\<forall>j<length (produced rep).
            \<exists>t. to_config (tests ! j) = Inr t
               \<and> produced rep ! j = run_test exec cfg (snd (start_phase github fetch cfg tests)) t j
               \<and> url (produced rep ! j) = url t \<and> goal (produced rep ! j) = goal t)
      \<and> (length (produced rep) < length tests \<longrightarrow>
            \<not> continueOnFailure cfg \<and> produced rep \<noteq> []
            \<and> \<not> truthy (success (last (produced rep))))
      \<and> (\<not> continueOnFailure cfg \<longrightarrow>
            (\<forall>j. Suc j < length (produced rep) \<longrightarrow> truthy (success (produced rep ! j)))))"
proof (intro conjI impI allI)
  let ?live = "snd (start_phase github fetch cfg tests)"
  assume a: "(\<not> truthy ?live \<or> \<not> toString_throws ?live)
     \<and> (\<forall>j<length tests. \<exists>t. to_config (tests ! j) = Inr t
            \<and> \<not> toString_throws (url t) \<and> \<not> toString_throws (goal t)
            \<and> \<not> toString_throws
                  (if truthy (success (run_test exec cfg ?live t j))
                   then passedReason (run_test exec cfg ?live t j)
                   else failReason (run_test exec cfg ?live t j)))"
  then have id: "\<not> (truthy ?live \<and> toString_throws ?live)"
    by blast
  from a have "\<exists>rs hf'. run_loop exec cfg ?live tests 0 [] False = Inr (rs, hf')"
    by (intro run_loop_completes) blast
  with id show "\<exists>rep. run_tests render github fetch exec d cfg tests = Inr rep"
    by (auto simp: run_tests_def split: prod.splits)
next
  fix rep
  assume run: "run_tests render github fetch exec d cfg tests = Inr rep"
  let ?live = "snd (start_phase github fetch cfg tests)"
  from run_tests_Inr [OF run] obtain rs hf where
    loop: "run_loop exec cfg ?live tests 0 [] False = Inr (rs, hf)" and rs: "produced rep = rs"
    by (auto simp: produced_finish)
  from run_loop_invariant [OF loop] have
    n2: "length rs \<le> length tests" and
    n3: "\<forall>j<length rs. \<exists>t. to_config (tests ! j) = Inr t \<and> rs ! j = run_test exec cfg ?live t j" and
    n4: "length rs < length tests \<longrightarrow>
           \<not> continueOnFailure cfg \<and> rs \<noteq> [] \<and> \<not> truthy (success (last rs))" and
    n5: "\<not> continueOnFailure cfg \<longrightarrow> (\<forall>j. Suc j < length rs \<longrightarrow> truthy (success (rs ! j)))"
    by auto
  show "length (produced rep) \<le> length tests"
    using n2 rs by simp
  show "\<exists>t. to_config (tests ! j) = Inr t
          \<and> produced rep ! j = run_test exec cfg ?live t j
          \<and> url (produced rep ! j) = url t \<and> goal (produced rep ! j) = goal t"
    if "j < length (produced rep)" for j
    using that n3 rs run_test_config by fastforce
  show "\<not> continueOnFailure cfg" "produced rep \<noteq> []" "\<not> truthy (success (last (produced rep)))"
    if "length (produced rep) < length tests"
    using that n4 rs by simp_all
  show "truthy (success (produced rep ! j))"
    if "\<not> continueOnFailure cfg" "Suc j < length (produced rep)" for j
    using that n5 rs by simp
qed

text \<open>
  Evaluation of the executor on the two outputs used in the examples below: an agent that
  reports a pass and one that reports a failure.
\<close>

lemma result_of_passing_output:
  "result_of_outcome config \<lparr>stdout = js ''{\"url\":\"x\",\"success\":true}'', stderr = [], elapsed = 5\<rparr>
     = \<lparr>url = url config, goal = goal config, success = JBool True, reason = JNull,
         error = JNull, steps = JArr [], violations = JArr [], duration = 5\<rparr>"
  by (simp add: string_eval json_eval executor_eval field_def)

lemma result_of_failing_output:
  "result_of_outcome config \<lparr>stdout = js ''{\"url\":\"x\",\"success\":false}'', stderr = [], elapsed = 5\<rparr>
     = \<lparr>url = url config, goal = goal config, success = JBool False, reason = JNull,
         error = JNull, steps = JArr [], violations = JArr [], duration = 5\<rparr>"
  by (simp add: string_eval json_eval executor_eval field_def)

lemma to_config_object:
  "to_config (JObj [(js ''url'', u), (js ''goal'', g)]) = Inr \<lparr>url = u, goal = g\<rparr>"
  by (simp add: to_config_def js_def)

text \<open>
  A value without a string rendering ends the run in the loop: a test whose url is the
  object \<open>{"toString": 1}\<close>, before it is executed, and a result whose reason is that
  object, when its message is printed.
\<close>

lemma run_tests_unprintable_url:
  "run_tests render github fetch exec d
     \<lparr>provider = p, apiKey = k, headless = h, continueOnFailure = c, dashboardUrl = [],
        dashboardApiKey = [], agentPath = w\<rparr>
     [JObj [(js ''url'', JObj [(js ''toString'', JNum 1)]), (js ''goal'', JStr (js ''g1''))]]
   = Inl TypeError"
  by (simp add: run_tests_def start_phase_def run_loop.simps to_config_object)

lemma result_of_unprintable_reason:
  "result_of_outcome config
     \<lparr>stdout = js ''{\"url\":\"x\",\"success\":true,\"reason\":{\"toString\":1}}'', stderr = [],
        elapsed = 5\<rparr>
     = \<lparr>url = url config, goal = goal config, success = JBool True,
         reason = JObj [(js ''toString'', JNum 1)], error = JNull, steps = JArr [],
         violations = JArr [], duration = 5\<rparr>"
  by (simp add: string_eval json_eval executor_eval field_def)

lemma run_tests_unprintable_reason:
  "run_tests render github fetch
     (\<lambda>i inv. \<lparr>stdout = js ''{\"url\":\"x\",\"success\":true,\"reason\":{\"toString\":1}}'',
                  stderr = [], elapsed = 5\<rparr>)
     d
     \<lparr>provider = p, apiKey = k, headless = h, continueOnFailure = c, dashboardUrl = [],
        dashboardApiKey = [], agentPath = w\<rparr>
     [JObj [(js ''url'', JStr (js ''http://x'')), (js ''goal'', JStr (js ''g1''))]]
   = Inl TypeError"
  by (simp add: run_tests_def start_phase_def run_loop.simps to_config_object run_test_def
      runSingleTest_def result_of_unprintable_reason passedReason_def js_or_def)

text \<open>
  Three test cases with printable urls and goals, the agent fails the second one (call
  number 1) and its messages are the default ones, continue-on-failure is off and no
  dashboard is configured: two results, in the order of the test cases, the last one failed.
\<close>

theorem C4_results_follow_tests_witness:
  "snd (start_phase (Inl TypeError) (\<lambda>rq. Rejected TypeError)
          \<lparr>provider = js ''openai'', apiKey = js ''k'', headless = True,
             continueOnFailure = False, dashboardUrl = [], dashboardApiKey = [],
             agentPath = js ''/w''\<rparr>
          [JObj [(js ''url'', JStr (js ''http://x'')), (js ''goal'', JStr (js ''g1''))],
           JObj [(js ''url'', JStr (js ''http://x'')), (js ''goal'', JStr (js ''g2''))],
           JObj [(js ''url'', JStr (js ''http://x'')), (js ''goal'', JStr (js ''g3''))]]) = JNull
   \<and> map to_config
        [JObj [(js ''url'', JStr (js ''http://x'')), (js ''goal'', JStr (js ''g1''))],
         JObj [(js ''url'', JStr (js ''http://x'')), (js ''goal'', JStr (js ''g2''))],
         JObj [(js ''url'', JStr (js ''http://x'')), (js ''goal'', JStr (js ''g3''))]]
       = [Inr \<lparr>url = JStr (js ''http://x''), goal = JStr (js ''g1'')\<rparr>,
          Inr \<lparr>url = JStr (js ''http://x''), goal = JStr (js ''g2'')\<rparr>,
          Inr \<lparr>url = JStr (js ''http://x''), goal = JStr (js ''g3'')\<rparr>]
   \<and> map toString_throws
        [JStr (js ''http://x''), JStr (js ''g1''), JStr (js ''g2''), JStr (js ''g3''),
         passedReason \<lparr>url = JStr (js ''http://x''), goal = JStr (js ''g1''),
           success = JBool True, reason = JNull, error = JNull, steps = JArr [],
           violations = JArr [], duration = 5\<rparr>,
         failReason \<lparr>url = JStr (js ''http://x''), goal = JStr (js ''g2''),
           success = JBool False, reason = JNull, error = JNull, steps = JArr [],
           violations = JArr [], duration = 5\<rparr>,
         passedReason \<lparr>url = JStr (js ''http://x''), goal = JStr (js ''g3''),
           success = JBool True, reason = JNull, error = JNull, steps = JArr [],
           violations = JArr [], duration = 5\<rparr>]
       = [False, False, False, False, False, False, False]
   \<and> map_sum id produced
        (run_tests (\<lambda>v. []) (Inl TypeError) (\<lambda>rq. Rejected TypeError)
           (\<lambda>i inv. \<lparr>stdout = (if i = Suc 0 then js ''{\"url\":\"x\",\"success\":false}''
                                  else js ''{\"url\":\"x\",\"success\":true}''),
                        stderr = [], elapsed = 5\<rparr>)
           10
           \<lparr>provider = js ''openai'', apiKey = js ''k'', headless = True,
              continueOnFailure = False, dashboardUrl = [], dashboardApiKey = [],
              agentPath = js ''/w''\<rparr>
           [JObj [(js ''url'', JStr (js ''http://x'')), (js ''goal'', JStr (js ''g1''))],
            JObj [(js ''url'', JStr (js ''http://x'')), (js ''goal'', JStr (js ''g2''))],
            JObj [(js ''url'', JStr (js ''http://x'')), (js ''goal'', JStr (js ''g3''))]])
       = Inr [\<lparr>url = JStr (js ''http://x''), goal = JStr (js ''g1''), success = JBool True,
                reason = JNull, error = JNull, steps = JArr [], violations = JArr [],
                duration = 5\<rparr>,
              \<lparr>url = JStr (js ''http://x''), goal = JStr (js ''g2''), success = JBool False,
                reason = JNull, error = JNull, steps = JArr [], violations = JArr [],
                duration = 5\<rparr>]"
proof -
  let ?t1 = "JObj [(js ''url'', JStr (js ''http://x'')), (js ''goal'', JStr (js ''g1''))]"
  let ?t2 = "JObj [(js ''url'', JStr (js ''http://x'')), (js ''goal'', JStr (js ''g2''))]"
  let ?t3 = "JObj [(js ''url'', JStr (js ''http://x'')), (js ''goal'', JStr (js ''g3''))]"
  let ?c1 = "\<lparr>url = JStr (js ''http://x''), goal = JStr (js ''g1'')\<rparr>"
  let ?c2 = "\<lparr>url = JStr (js ''http://x''), goal = JStr (js ''g2'')\<rparr>"
  let ?c3 = "\<lparr>url = JStr (js ''http://x''), goal = JStr (js ''g3'')\<rparr>"
  let ?tests = "[?t1, ?t2, ?t3]"
  let ?exec = "\<lambda>i inv. \<lparr>stdout = (if i = Suc 0 then js ''{\"url\":\"x\",\"success\":false}''
                                  else js ''{\"url\":\"x\",\"success\":true}''),
                        stderr = [], elapsed = 5\<rparr>"
  let ?cfg = "\<lparr>provider = js ''openai'', apiKey = js ''k'', headless = True,
              continueOnFailure = False, dashboardUrl = [], dashboardApiKey = [],
              agentPath = js ''/w''\<rparr>"
  let ?github = "Inl TypeError :: js_error + ci_context"
  let ?fetch = "\<lambda>rq::request. Rejected TypeError"
  let ?run = "run_tests (\<lambda>v. []) ?github ?fetch ?exec 10 ?cfg ?tests"
  let ?r1 = "\<lparr>url = JStr (js ''http://x''), goal = JStr (js ''g1''), success = JBool True,
                reason = JNull, error = JNull, steps = JArr [], violations = JArr [],
                duration = 5\<rparr>"
  let ?r2 = "\<lparr>url = JStr (js ''http://x''), goal = JStr (js ''g2''), success = JBool False,
                reason = JNull, error = JNull, steps = JArr [], violations = JArr [],
                duration = 5\<rparr>"
  let ?r3 = "\<lparr>url = JStr (js ''http://x''), goal = JStr (js ''g3''), success = JBool True,
                reason = JNull, error = JNull, steps = JArr [], violations = JArr [],
                duration = 5\<rparr>"
  have live: "snd (start_phase ?github ?fetch ?cfg ?tests) = JNull"
    by (simp add: start_phase_def)
  have configs: "map to_config ?tests = [Inr ?c1, Inr ?c2, Inr ?c3]"
    by (simp add: to_config_object)
  have printable: "map toString_throws
        [JStr (js ''http://x''), JStr (js ''g1''), JStr (js ''g2''), JStr (js ''g3''),
         passedReason ?r1, failReason ?r2, passedReason ?r3]
       = [False, False, False, False, False, False, False]"
    by (simp add: passedReason_def failReason_def js_or_def)
  have e1: "run_test ?exec ?cfg JNull ?c1 0 = ?r1"
    by (simp add: run_test_def runSingleTest_def result_of_passing_output)
  have e2: "run_test ?exec ?cfg JNull ?c2 (Suc 0) = ?r2"
    by (simp add: run_test_def runSingleTest_def result_of_failing_output)
  have e3: "run_test ?exec ?cfg JNull ?c3 (Suc (Suc 0)) = ?r3"
    by (simp add: run_test_def runSingleTest_def result_of_passing_output)
  have each: "\<exists>t. to_config (?tests ! j) = Inr t
            \<and> \<not> toString_throws (url t) \<and> \<not> toString_throws (goal t)
            \<and> \<not> toString_throws
                  (if truthy (success (run_test ?exec ?cfg (snd (start_phase ?github ?fetch ?cfg ?tests)) t j))
                   then passedReason (run_test ?exec ?cfg (snd (start_phase ?github ?fetch ?cfg ?tests)) t j)
                   else failReason (run_test ?exec ?cfg (snd (start_phase ?github ?fetch ?cfg ?tests)) t j))"
    if "j < length ?tests" for j
  proof -
    from that consider "j = 0" | "j = Suc 0" | "j = Suc (Suc 0)"
      by fastforce
    then show ?thesis
    proof cases
      case 1
      show ?thesis
        unfolding live 1
        by (rule exI [of _ ?c1]) (simp add: to_config_object e1 passedReason_def js_or_def)
    next
      case 2
      show ?thesis
        unfolding live 2
        by (rule exI [of _ ?c2]) (simp add: to_config_object e2 failReason_def js_or_def)
    next
      case 3
      show ?thesis
        unfolding live 3
        by (rule exI [of _ ?c3]) (simp add: to_config_object e3 passedReason_def js_or_def)
    qed
  qed
  have hyp: "(\<not> truthy (snd (start_phase ?github ?fetch ?cfg ?tests))
       \<or> \<not> toString_throws (snd (start_phase ?github ?fetch ?cfg ?tests)))
     \<and> (\<forall>j<length ?tests. \<exists>t. to_config (?tests ! j) = Inr t
            \<and> \<not> toString_throws (url t) \<and> \<not> toString_throws (goal t)
            \<and> \<not> toString_throws
                  (if truthy (success (run_test ?exec ?cfg (snd (start_phase ?github ?fetch ?cfg ?tests)) t j))
                   then passedReason (run_test ?exec ?cfg (snd (start_phase ?github ?fetch ?cfg ?tests)) t j)
                   else failReason (run_test ?exec ?cfg (snd (start_phase ?github ?fetch ?cfg ?tests)) t j)))"
    using each by (simp add: live)
  note c4 = C4_results_follow_tests [of "Inl TypeError" "\<lambda>rq. Rejected TypeError" ?cfg ?tests
      ?exec "\<lambda>v. []" 10]
  from c4 hyp obtain rep where run: "?run = Inr rep"
    by blast
  have loop: "run_loop ?exec ?cfg JNull ?tests 0 [] False = Inr ([?r1, ?r2], True)"
    by (simp add: run_loop.simps to_config_object e1 e2 passedReason_def failReason_def js_or_def)
  have full: "?run = Inr (finish [] [?r1, ?r2] True ([], None))"
    by (simp add: run_tests_def start_phase_def complete_phase_def loop)
  have "Inr rep = (Inr (finish [] [?r1, ?r2] True ([], None)) :: js_error + report)"
    using run full by (rule box_equals [OF refl])
  then have "produced rep = [?r1, ?r2]"
    by (simp add: produced_finish)
  then have res: "map_sum id produced ?run = Inr [?r1, ?r2]"
    by (simp only: run map_sum.simps)
  show ?thesis
    by (intro conjI) (rule live, rule configs, rule printable, rule res)
qed

subsection \<open>Exit status\<close>

lemma run_loop_results:
  assumes "run_loop exec cfg live tests 0 [] False = Inr (rs, hf)"
  shows "(\<forall>r\<in>set rs. truthy (success r) \<or> success r = JBool False)
       \<and> hf = (\<exists>r\<in>set rs. success r = JBool False)"
proof -
  from run_loop_invariant [OF assms] have
    each: "\<forall>j<length rs. \<exists>t. rs ! j = run_test exec cfg live t j" and
    flag: "hf = (\<exists>r\<in>set rs. \<not> truthy (success r))"
    by auto
  have results: "\<forall>r\<in>set rs. \<exists>t j. r = run_test exec cfg live t j"
    using each by (metis in_set_conv_nth)
  have iff: "(\<not> truthy (success r)) = (success r = JBool False)" if "r \<in> set rs" for r
    using that results run_test_failed_iff by metis
  show ?thesis
    using flag iff by auto
qed

lemma failed_count:
  assumes "\<forall>r\<in>set rs. truthy (success r) \<or> success r = JBool False"
  shows "length rs - passed_count rs = length (filter (\<lambda>r. success r = JBool False) rs)"
proof -
  have "filter (\<lambda>r. \<not> truthy (success r)) rs = filter (\<lambda>r. success r = JBool False) rs"
    using assms by (intro filter_cong) auto
  moreover have "length rs = passed_count rs + length (filter (\<lambda>r. \<not> truthy (success r)) rs)"
    unfolding passed_count_def by (rule sum_length_filter_compl [symmetric])
  ultimately show ?thesis by simp
qed

text \<open>
  Claim C5. For a run whose loop has completed: \<open>core.setFailed\<close> is called exactly when
  some result has \<open>success = false\<close>; its message is
  \<open><failed> out of <total> accessibility tests failed\<close>, where total is the number of
  results produced and failed is total minus the number of passed results, which is the
  number of results with \<open>success = false\<close>; otherwise no failure is set.
\<close>

theorem C5_failure_status:
  assumes "run_tests render github fetch exec d cfg tests = Inr rep"
  shows "(failure rep \<noteq> None) = (\<exists>r\<in>set (produced rep). success r = JBool False)
       \<and> (failure rep = None
           \<or> failure rep =
               Some (show_nat (length (produced rep) - passed_count (produced rep))
                     @ js '' out of '' @ show_nat (length (produced rep))
                     @ js '' accessibility tests failed''))
       \<and> length (produced rep) - passed_count (produced rep)
           = length (filter (\<lambda>r. success r = JBool False) (produced rep))"
proof -
  from run_tests_Inr [OF assms] obtain rs hf started completed where
    loop: "run_loop exec cfg (snd (start_phase github fetch cfg tests)) tests 0 [] False
             = Inr (rs, hf)" and
    rep: "rep = finish started rs hf completed"
    by blast
  from run_loop_results [OF loop] have
    kinds: "\<forall>r\<in>set rs. truthy (success r) \<or> success r = JBool False" and
    flag: "hf = (\<exists>r\<in>set rs. success r = JBool False)"
    by auto
  show ?thesis
    unfolding rep using flag failed_count [OF kinds]
    by (simp add: finish_def failure_message_def)
qed

text \<open>
  Two test cases, the agent fails the first, continue-on-failure is off: one result, and
  the message counts one failure out of one, not out of two. With an agent that passes both
  no failure is set.
\<close>

theorem C5_failure_status_witness:
  "map_sum id failure
     (run_tests (\<lambda>v. []) (Inl TypeError) (\<lambda>rq. Rejected TypeError)
        (\<lambda>i inv. \<lparr>stdout = js ''{\"url\":\"x\",\"success\":false}'', stderr = [], elapsed = 5\<rparr>)
        10
        \<lparr>provider = js ''openai'', apiKey = js ''k'', headless = True,
           continueOnFailure = False, dashboardUrl = [], dashboardApiKey = [],
           agentPath = js ''/w''\<rparr>
        [JObj [(js ''url'', JStr (js ''http://x'')), (js ''goal'', JStr (js ''g1''))],
         JObj [(js ''url'', JStr (js ''http://x'')), (js ''goal'', JStr (js ''g2''))]])
     = Inr (Some (js ''1 out of 1 accessibility tests failed''))
   \<and> map_sum id failure
     (run_tests (\<lambda>v. []) (Inl TypeError) (\<lambda>rq. Rejected TypeError)
        (\<lambda>i inv. \<lparr>stdout = js ''{\"url\":\"x\",\"success\":true}'', stderr = [], elapsed = 5\<rparr>)
        10
        \<lparr>provider = js ''openai'', apiKey = js ''k'', headless = True,
           continueOnFailure = False, dashboardUrl = [], dashboardApiKey = [],
           agentPath = js ''/w''\<rparr>
        [JObj [(js ''url'', JStr (js ''http://x'')), (js ''goal'', JStr (js ''g1''))],
         JObj [(js ''url'', JStr (js ''http://x'')), (js ''goal'', JStr (js ''g2''))]])
     = Inr None"
proof -
  let ?t1 = "JObj [(js ''url'', JStr (js ''http://x'')), (js ''goal'', JStr (js ''g1''))]"
  let ?t2 = "JObj [(js ''url'', JStr (js ''http://x'')), (js ''goal'', JStr (js ''g2''))]"
  let ?c1 = "\<lparr>url = JStr (js ''http://x''), goal = JStr (js ''g1'')\<rparr>"
  let ?c2 = "\<lparr>url = JStr (js ''http://x''), goal = JStr (js ''g2'')\<rparr>"
  let ?failing = "\<lambda>(i::nat) (inv::invocation).
      \<lparr>stdout = js ''{\"url\":\"x\",\"success\":false}'', stderr = [], elapsed = 5\<rparr>"
  let ?passing = "\<lambda>(i::nat) (inv::invocation).
      \<lparr>stdout = js ''{\"url\":\"x\",\"success\":true}'', stderr = [], elapsed = 5\<rparr>"
  let ?cfg = "\<lparr>provider = js ''openai'', apiKey = js ''k'', headless = True,
              continueOnFailure = False, dashboardUrl = [], dashboardApiKey = [],
              agentPath = js ''/w''\<rparr>"
  let ?f1 = "\<lparr>url = JStr (js ''http://x''), goal = JStr (js ''g1''), success = JBool False,
               reason = JNull, error = JNull, steps = JArr [], violations = JArr [],
               duration = 5\<rparr>"
  let ?p1 = "\<lparr>url = JStr (js ''http://x''), goal = JStr (js ''g1''), success = JBool True,
               reason = JNull, error = JNull, steps = JArr [], violations = JArr [],
               duration = 5\<rparr>"
  let ?p2 = "\<lparr>url = JStr (js ''http://x''), goal = JStr (js ''g2''), success = JBool True,
               reason = JNull, error = JNull, steps = JArr [], violations = JArr [],
               duration = 5\<rparr>"
  have e1: "run_test ?failing ?cfg JNull ?c1 0 = ?f1"
    by (simp add: run_test_def runSingleTest_def result_of_failing_output)
  have e2: "run_test ?passing ?cfg JNull ?c1 0 = ?p1" "run_test ?passing ?cfg JNull ?c2 (Suc 0) = ?p2"
    by (simp_all add: run_test_def runSingleTest_def result_of_passing_output)
  have loop1: "run_loop ?failing ?cfg JNull [?t1, ?t2] 0 [] False = Inr ([?f1], True)"
    by (simp add: run_loop.simps passedReason_def failReason_def js_or_def to_config_object e1)
  have loop2: "run_loop ?passing ?cfg JNull [?t1, ?t2] 0 [] False = Inr ([?p1, ?p2], False)"
    by (simp add: run_loop.simps passedReason_def failReason_def js_or_def to_config_object e2)
  have run1: "run_tests (\<lambda>v. []) (Inl TypeError) (\<lambda>rq. Rejected TypeError) ?failing 10 ?cfg [?t1, ?t2]
      = Inr (finish [] [?f1] True ([], None))"
    by (simp add: run_tests_def start_phase_def complete_phase_def loop1)
  have run2: "run_tests (\<lambda>v. []) (Inl TypeError) (\<lambda>rq. Rejected TypeError) ?passing 10 ?cfg [?t1, ?t2]
      = Inr (finish [] [?p1, ?p2] False ([], None))"
    by (simp add: run_tests_def start_phase_def complete_phase_def loop2)
  have count: "passed_count [?f1] = 0"
    by (simp add: passed_count_def)
  have digits: "show_nat (Suc 0) = js ''1''"
    by (simp add: show_nat.simps js_def)
  note c1 = C5_failure_status [OF run1, unfolded produced_finish]
  have d1: "show_nat (length [?f1] - passed_count [?f1]) = js ''1''" "show_nat (length [?f1]) = js ''1''"
    by (simp_all add: count digits)
  have set1: "failure (finish [] [?f1] True ([], None)) \<noteq> None"
    using c1 by simp
  with c1 have "failure (finish [] [?f1] True ([], None))
      = Some (show_nat (length [?f1] - passed_count [?f1]) @ js '' out of ''
              @ show_nat (length [?f1]) @ js '' accessibility tests failed'')"
    by blast
  then have "failure (finish [] [?f1] True ([], None))
      = Some (js ''1'' @ js '' out of '' @ js ''1'' @ js '' accessibility tests failed'')"
    by (simp only: d1)
  then have "failure (finish [] [?f1] True ([], None)) = Some (js ''1 out of 1 accessibility tests failed'')"
    by (simp add: js_def)
  moreover have "failure (finish [] [?p1, ?p2] False ([], None)) = None"
    using C5_failure_status [OF run2, unfolded produced_finish]
    by simp
  ultimately show ?thesis
    by (simp only: run1 run2 map_sum.simps)
qed

section \<open>Live dashboard reporter\<close>

lemma startLiveRun_returns:
  "fst (startLiveRun github fetch u k tests) = []
   \<or> snd (startLiveRun github fetch u k tests) = JNull
     \<and> length (fst (startLiveRun github fetch u k tests)) = 1"
  by (simp add: startLiveRun_def startLiveRun_try_def
      split: sum.splits fetch_outcome.splits option.splits)

lemma completeLiveRun_returns:
  "fst (completeLiveRun render fetch u k i rs d) = []
   \<or> snd (completeLiveRun render fetch u k i rs d) = None
     \<and> length (fst (completeLiveRun render fetch u k i rs d)) = 1"
  by (simp add: completeLiveRun_def completeLiveRun_try_def
      split: sum.splits fetch_outcome.splits)

lemma startLiveRun_failure:
  assumes "\<forall>rq. (\<exists>e. fetch rq = Rejected e) \<or> (\<exists>st b. fetch rq = Response st b \<and> \<not> response_ok st)"
  shows "snd (startLiveRun github fetch u k tests) = JNull
       \<and> length (fst (startLiveRun github fetch u k tests)) = 1"
proof -
  have no_ok: "fetch rq \<noteq> Response st b" if "response_ok st" for rq st b
    using assms that by (metis fetch_outcome.distinct(1) fetch_outcome.inject(2))
  show ?thesis
    using no_ok
    by (auto simp: startLiveRun_def startLiveRun_try_def
        split: sum.splits fetch_outcome.splits option.splits)
qed

lemma completeLiveRun_failure:
  assumes "\<forall>rq. (\<exists>e. fetch rq = Rejected e) \<or> (\<exists>st b. fetch rq = Response st b \<and> \<not> response_ok st)"
  shows "snd (completeLiveRun render fetch u k i rs d) = None
       \<and> length (fst (completeLiveRun render fetch u k i rs d)) = 1"
proof -
  have no_ok: "fetch rq \<noteq> Response st b" if "response_ok st" for rq st b
    using assms that by (metis fetch_outcome.distinct(1) fetch_outcome.inject(2))
  show ?thesis
    using no_ok
    by (auto simp: completeLiveRun_def completeLiveRun_try_def
        split: sum.splits fetch_outcome.splits)
qed

text \<open>Without a run id the subprocess is invoked as if no dashboard were configured.\<close>

lemma run_test_without_dashboard:
  assumes "\<not> truthy live"
  shows "run_test exec (cfg\<lparr>dashboardUrl := []\<rparr>) live t i = run_test exec cfg live t i"
  using assms
  by (simp add: run_test_def runSingleTest_def agent_invocation_def live_env_def or_null_def
      split: option.splits)

lemma run_loop_without_dashboard:
  assumes "\<not> truthy live"
  shows "run_loop exec (cfg\<lparr>dashboardUrl := []\<rparr>) live tests i results hf
         = run_loop exec cfg live tests i results hf"
  using assms
proof (induction exec cfg live tests i results hf rule: run_loop.induct)
  case (1 exec cfg live tests i results hf)
  note same = run_test_without_dashboard [OF "1.prems", of exec cfg]
  show ?case
  proof (cases "i < length tests")
    case False
    then show ?thesis
      by (simp add: run_loop.simps [of exec _ live tests i results hf])
  next
    case True
    show ?thesis
    proof (cases "to_config (tests ! i)")
      case (Inl e)
      with True show ?thesis
        by (simp add: run_loop.simps [of exec _ live tests i results hf])
    next
      case (Inr test)
      show ?thesis
        using True Inr same "1.IH"(1) [OF True Inr _ _ _ "1.prems"]
          "1.IH"(2) [OF True Inr _ _ _ _ "1.prems"]
        by (simp add: run_loop.simps [of exec _ live tests i results hf])
    qed
  qed
qed

lemma no_dashboard_output:
  "map_of (summary_outputs rs None) (js ''dashboard-url'') = None"
  by (simp add: summary_outputs_def js_def)

text \<open>
  Claim C7. \<open>startLiveRun\<close> and \<open>completeLiveRun\<close> always return: either without a warning,
  or \<open>null\<close> after one warning. When every request fails in transport or is answered with a
  status that is not OK, both return \<open>null\<close> after one warning. When \<open>startLiveRun\<close>
  returned \<open>null\<close> (or was not called) the run is the run of the same configuration without
  a dashboard, apart from the warnings, and the output \<open>dashboard-url\<close> is not set; it is not
  set either when \<open>completeLiveRun\<close> returned \<open>null\<close>.
\<close>

theorem C7_dashboard_failures_degrade:
  "(fst (startLiveRun github fetch u k tests) = []
     \<or> snd (startLiveRun github fetch u k tests) = JNull
       \<and> length (fst (startLiveRun github fetch u k tests)) = 1)
   \<and> (fst (completeLiveRun render fetch u k i rs d) = []
     \<or> snd (completeLiveRun render fetch u k i rs d) = None
       \<and> length (fst (completeLiveRun render fetch u k i rs d)) = 1)
   \<and> ((\<forall>rq. (\<exists>e. fetch rq = Rejected e) \<or> (\<exists>st b. fetch rq = Response st b \<and> \<not> response_ok st)) \<longrightarrow>
         snd (startLiveRun github fetch u k tests) = JNull
       \<and> length (fst (startLiveRun github fetch u k tests)) = 1
       \<and> snd (completeLiveRun render fetch u k i rs d) = None
       \<and> length (fst (completeLiveRun render fetch u k i rs d)) = 1)
   \<and> (snd (start_phase github fetch cfg tests) = JNull \<longrightarrow>
         map_sum id (\<lambda>rep. rep\<lparr>logged := []\<rparr>) (run_tests render github fetch exec d cfg tests)
           = run_tests render github fetch exec d (cfg\<lparr>dashboardUrl := []\<rparr>) tests
       \<and> (\<forall>rep. run_tests render github fetch exec d cfg tests = Inr rep \<longrightarrow>
              map_of (outputs rep) (js ''dashboard-url'') = None))
   \<and> (\<forall>rep. run_tests render github fetch exec d cfg tests = Inr rep
           \<and> snd (complete_phase render fetch cfg (snd (start_phase github fetch cfg tests))
                    (produced rep) d) = None \<longrightarrow>
           map_of (outputs rep) (js ''dashboard-url'') = None)"
proof (intro conjI impI allI)
  show "fst (startLiveRun github fetch u k tests) = []
     \<or> snd (startLiveRun github fetch u k tests) = JNull
       \<and> length (fst (startLiveRun github fetch u k tests)) = 1"
    by (rule startLiveRun_returns)
  show "fst (completeLiveRun render fetch u k i rs d) = []
     \<or> snd (completeLiveRun render fetch u k i rs d) = None
       \<and> length (fst (completeLiveRun render fetch u k i rs d)) = 1"
    by (rule completeLiveRun_returns)
next
  assume fails: "\<forall>rq. (\<exists>e. fetch rq = Rejected e) \<or> (\<exists>st b. fetch rq = Response st b \<and> \<not> response_ok st)"
  show "snd (startLiveRun github fetch u k tests) = JNull"
    "length (fst (startLiveRun github fetch u k tests)) = 1"
    using startLiveRun_failure [OF fails] by simp_all
  show "snd (completeLiveRun render fetch u k i rs d) = None"
    "length (fst (completeLiveRun render fetch u k i rs d)) = 1"
    using completeLiveRun_failure [OF fails] by simp_all
next
  assume null: "snd (start_phase github fetch cfg tests) = JNull"
  then obtain ws where start: "start_phase github fetch cfg tests = (ws, JNull)"
    by (cases "start_phase github fetch cfg tests") simp
  have start': "start_phase github fetch (cfg\<lparr>dashboardUrl := []\<rparr>) tests = ([], JNull)"
    by (simp add: start_phase_def)
  have loop: "run_loop exec (cfg\<lparr>dashboardUrl := []\<rparr>) JNull tests 0 [] False
              = run_loop exec cfg JNull tests 0 [] False"
    by (rule run_loop_without_dashboard) simp
  show "map_sum id (\<lambda>rep. rep\<lparr>logged := []\<rparr>) (run_tests render github fetch exec d cfg tests)
           = run_tests render github fetch exec d (cfg\<lparr>dashboardUrl := []\<rparr>) tests"
    by (simp add: run_tests_def start start' loop complete_phase_def finish_def
        split: sum.splits prod.splits)
  show "map_of (outputs rep) (js ''dashboard-url'') = None"
    if "run_tests render github fetch exec d cfg tests = Inr rep" for rep
    using that no_dashboard_output
    by (auto simp: run_tests_def start complete_phase_def finish_def split: sum.splits prod.splits)
next
  fix rep
  assume a: "run_tests render github fetch exec d cfg tests = Inr rep
           \<and> snd (complete_phase render fetch cfg (snd (start_phase github fetch cfg tests))
                    (produced rep) d) = None"
  from run_tests_Inr [of render github fetch exec d cfg tests rep] a obtain rs' hf where
    rep: "rep = finish (fst (start_phase github fetch cfg tests)) rs' hf
                 (complete_phase render fetch cfg (snd (start_phase github fetch cfg tests)) rs' d)"
    by blast
  then have "produced rep = rs'"
    by (simp add: produced_finish)
  with a rep have "outputs rep = summary_outputs rs' None"
    by (simp add: finish_def)
  then show "map_of (outputs rep) (js ''dashboard-url'') = None"
    using no_dashboard_output [of rs'] by simp
qed

text \<open>
  A dashboard that answers every request with HTTP 500: both calls warn and return \<open>null\<close>,
  and the run of one passing test completes with its result, without a \<open>dashboard-url\<close>
  output and without a failure.
\<close>

theorem C7_dashboard_failures_degrade_witness:
  "startLiveRun
     (Inr \<lparr>jobName = js ''o/r'', buildNumber = js ''7'',
            buildUrl = js ''https://github.com/o/r/actions/runs/1'', branch = js ''main'',
            commit = js ''abc''\<rparr>)
     (\<lambda>rq. Response 500 []) (js ''https://dash.example/'') (js ''secret'')
     [JObj [(js ''url'', JStr (js ''http://x'')), (js ''goal'', JStr (js ''g1''))]]
     = ([Warning (js ''Failed to start live run: HTTP 500'')], JNull)
   \<and> completeLiveRun (\<lambda>v. []) (\<lambda>rq. Response 500 []) (js ''https://dash.example/'') (js ''secret'')
       (JStr (js ''run-1'')) [] 10
     = ([Warning (js ''Failed to complete live run: HTTP 500'')], None)
   \<and> map_sum id (\<lambda>rep. (produced rep, map fst (outputs rep), failure rep))
       (run_tests (\<lambda>v. [])
          (Inr \<lparr>jobName = js ''o/r'', buildNumber = js ''7'',
                 buildUrl = js ''https://github.com/o/r/actions/runs/1'', branch = js ''main'',
                 commit = js ''abc''\<rparr>)
          (\<lambda>rq. Response 500 [])
          (\<lambda>i inv. \<lparr>stdout = js ''{\"url\":\"x\",\"success\":true}'', stderr = [], elapsed = 5\<rparr>)
          10
          \<lparr>provider = js ''openai'', apiKey = js ''k'', headless = True,
             continueOnFailure = True, dashboardUrl = js ''https://dash.example/'',
             dashboardApiKey = js ''secret'', agentPath = js ''/w''\<rparr>
          [JObj [(js ''url'', JStr (js ''http://x'')), (js ''goal'', JStr (js ''g1''))]])
     = Inr ([\<lparr>url = JStr (js ''http://x''), goal = JStr (js ''g1''), success = JBool True,
               reason = JNull, error = JNull, steps = JArr [], violations = JArr [],
               duration = 5\<rparr>],
            [js ''total-tests'', js ''passed-tests'', js ''failed-tests'', js ''pass-rate'',
             js ''results-json''],
            None)"
proof -
  let ?github = "Inr \<lparr>jobName = js ''o/r'', buildNumber = js ''7'',
            buildUrl = js ''https://github.com/o/r/actions/runs/1'', branch = js ''main'',
            commit = js ''abc''\<rparr> :: js_error + ci_context"
  let ?fetch = "\<lambda>rq::request. Response 500 []"
  let ?render = "\<lambda>v::jsvalue. [] :: jsstring"
  let ?t1 = "JObj [(js ''url'', JStr (js ''http://x'')), (js ''goal'', JStr (js ''g1''))]"
  let ?c1 = "\<lparr>url = JStr (js ''http://x''), goal = JStr (js ''g1'')\<rparr>"
  let ?exec = "\<lambda>(i::nat) (inv::invocation).
      \<lparr>stdout = js ''{\"url\":\"x\",\"success\":true}'', stderr = [], elapsed = 5\<rparr>"
  let ?cfg = "\<lparr>provider = js ''openai'', apiKey = js ''k'', headless = True,
             continueOnFailure = True, dashboardUrl = js ''https://dash.example/'',
             dashboardApiKey = js ''secret'', agentPath = js ''/w''\<rparr>"
  let ?nodash = "\<lparr>provider = js ''openai'', apiKey = js ''k'', headless = True,
             continueOnFailure = True, dashboardUrl = [],
             dashboardApiKey = js ''secret'', agentPath = js ''/w''\<rparr>"
  let ?p1 = "\<lparr>url = JStr (js ''http://x''), goal = JStr (js ''g1''), success = JBool True,
               reason = JNull, error = JNull, steps = JArr [], violations = JArr [],
               duration = 5\<rparr>"
  let ?run = "run_tests ?render ?github ?fetch ?exec 10 ?cfg [?t1]"
  note c7 = C7_dashboard_failures_degrade [where fetch = ?fetch and github = ?github
      and render = ?render and u = "js ''https://dash.example/''" and k = "js ''secret''"
      and tests = "[?t1]" and i = "JStr (js ''run-1'')" and rs = "[]" and d = 10
      and cfg = ?cfg and exec = ?exec]
  have not_ok: "\<not> response_ok 500"
    by (simp add: response_ok_def)
  have fails: "\<forall>rq. (\<exists>e. ?fetch rq = Rejected e) \<or> (\<exists>st b. ?fetch rq = Response st b \<and> \<not> response_ok st)"
    using not_ok by simp
  have digits: "show_nat 500 = js ''500''"
    by (simp add: show_nat.simps js_def)
  have start: "startLiveRun ?github ?fetch (js ''https://dash.example/'') (js ''secret'') [?t1]
      = ([Warning (js ''Failed to start live run: HTTP 500'')], JNull)"
    using not_ok
    by (simp add: startLiveRun_def startLiveRun_try_def to_config_object digits) (simp add: js_def)
  have complete: "completeLiveRun ?render ?fetch (js ''https://dash.example/'') (js ''secret'')
       (JStr (js ''run-1'')) [] 10
      = ([Warning (js ''Failed to complete live run: HTTP 500'')], None)"
    using not_ok
    by (simp add: completeLiveRun_def completeLiveRun_try_def digits) (simp add: js_def)
  have null: "snd (start_phase ?github ?fetch ?cfg [?t1]) = JNull"
    using c7 fails by (simp add: start_phase_def)
  have e1: "run_test ?exec ?nodash JNull ?c1 0 = ?p1"
    by (simp add: run_test_def runSingleTest_def result_of_passing_output)
  have loop: "run_loop ?exec ?nodash JNull [?t1] 0 [] False = Inr ([?p1], False)"
    by (simp add: run_loop.simps passedReason_def failReason_def js_or_def to_config_object e1)
  have plain: "run_tests ?render ?github ?fetch ?exec 10 ?nodash [?t1]
      = Inr (finish [] [?p1] False ([], None))"
    by (simp add: run_tests_def start_phase_def complete_phase_def loop)
  have nodash: "?cfg\<lparr>dashboardUrl := []\<rparr> = ?nodash"
    by simp
  from c7 null have "map_sum id (\<lambda>rep. rep\<lparr>logged := []\<rparr>) ?run
      = run_tests ?render ?github ?fetch ?exec 10 (?cfg\<lparr>dashboardUrl := []\<rparr>) [?t1]"
    by blast
  then have same: "map_sum id (\<lambda>rep. rep\<lparr>logged := []\<rparr>) ?run
      = run_tests ?render ?github ?fetch ?exec 10 ?nodash [?t1]"
    by (simp only: nodash)
  then obtain rep where run: "?run = Inr rep" and rep: "rep\<lparr>logged := []\<rparr> = finish [] [?p1] False ([], None)"
    unfolding plain by (cases ?run) auto
  have "produced rep = [?p1]" "failure rep = None"
    "map fst (outputs rep) = [js ''total-tests'', js ''passed-tests'', js ''failed-tests'',
        js ''pass-rate'', js ''results-json'']"
    using arg_cong [OF rep, of produced] arg_cong [OF rep, of failure] arg_cong [OF rep, of outputs]
    by (simp_all add: finish_def summary_outputs_def)
  then have res: "map_sum id (\<lambda>rep. (produced rep, map fst (outputs rep), failure rep)) ?run
      = Inr ([?p1], [js ''total-tests'', js ''passed-tests'', js ''failed-tests'',
                     js ''pass-rate'', js ''results-json''], None)"
    by (simp only: run map_sum.simps)
  show ?thesis
    by (intro conjI) (rule start, rule complete, rule res)
qed

section \<open>The pass rate\<close>

lemma bitlen_bounds: "0 < n \<Longrightarrow> 2 ^ (bitlen n - 1) \<le> n \<and> n < 2 ^ bitlen n"
proof (induction n rule: bitlen.induct)
  case (1 n)
  show ?case
  proof (cases "n div 2 = 0")
    case True
    with "1.prems" have "n = 1" by presburger
    then show ?thesis
      by (simp add: bitlen.simps [of "Suc 0"] bitlen.simps [of 0])
  next
    case False
    then have pos: "0 < n div 2" by simp
    from "1.prems" have n: "n \<noteq> 0" by simp
    from "1.IH" [OF n pos] have lo: "2 ^ (bitlen (n div 2) - 1) \<le> n div 2"
      and hi: "n div 2 < 2 ^ bitlen (n div 2)"
      by simp_all
    have len: "bitlen n = Suc (bitlen (n div 2))"
      using n by (simp add: bitlen.simps [of n])
    have b: "0 < bitlen (n div 2)"
      using pos by (simp add: bitlen.simps [of "n div 2"])
    then have "(2::nat) ^ bitlen (n div 2) = 2 * 2 ^ (bitlen (n div 2) - 1)"
      by (cases "bitlen (n div 2)") simp_all
    with lo have "2 ^ bitlen (n div 2) \<le> 2 * (n div 2)"
      by simp
    also have "\<dots> \<le> n" by presburger
    finally have l: "2 ^ (bitlen n - 1) \<le> n"
      by (simp add: len)
    from hi have "n div 2 + 1 \<le> 2 ^ bitlen (n div 2)" by simp
    then have "2 * (n div 2) + 2 \<le> 2 * 2 ^ bitlen (n div 2)" by simp
    moreover have "n < 2 * (n div 2) + 2" by presburger
    ultimately have "n < 2 ^ bitlen n"
      by (simp add: len)
    with l show ?thesis by simp
  qed
qed

lemma pow2_power_int: "pow2 e = power_int 2 e"
  by (simp add: pow2_def power_int_def inverse_eq_divide power_one_over)

lemma pow2_pos: "0 < pow2 e"
  by (simp add: pow2_power_int)

lemma pow2_diff: "pow2 (a - b) = pow2 a / pow2 b"
  by (simp add: pow2_power_int power_int_diff)

text \<open>\<open>ilog2 x\<close> is the exponent of \<open>x\<close>.\<close>

lemma ilog2_bounds:
  assumes "0 < x"
  shows "pow2 (ilog2 x) \<le> x \<and> x < pow2 (ilog2 x + 1)"
proof (cases "1 \<le> x")
  case True
  let ?n = "nat \<lfloor>x\<rfloor>"
  have n: "0 < ?n"
    using True by simp
  have fl: "of_nat ?n \<le> x" "x < of_nat ?n + 1"
    using True by linarith+
  from bitlen_bounds [OF n] have lo: "2 ^ (bitlen ?n - 1) \<le> ?n" and hi: "?n < 2 ^ bitlen ?n"
    by simp_all
  have b: "0 < bitlen ?n"
    using n by (simp add: bitlen.simps [of ?n])
  have e: "ilog2 x = int (bitlen ?n - 1)" "ilog2 x + 1 = int (bitlen ?n)"
    using True b by (simp_all add: ilog2_def)
  have p: "pow2 (int k) = of_nat (2 ^ k)" for k
    by (simp add: pow2_power_int)
  have "(of_nat (2 ^ (bitlen ?n - 1)) :: rat) \<le> of_nat ?n"
    using lo by (simp only: of_nat_le_iff)
  also note fl(1)
  finally have l: "pow2 (ilog2 x) \<le> x"
    by (simp only: e(1) p)
  have "?n + 1 \<le> 2 ^ bitlen ?n"
    using hi by linarith
  then have "(of_nat (?n + 1) :: rat) \<le> of_nat (2 ^ bitlen ?n)"
    by (simp only: of_nat_le_iff)
  then have "of_nat ?n + 1 \<le> (of_nat (2 ^ bitlen ?n) :: rat)"
    by (simp only: of_nat_add of_nat_1)
  with fl(2) have "x < of_nat (2 ^ bitlen ?n)"
    by (rule less_le_trans)
  then have "x < pow2 (ilog2 x + 1)"
    by (simp only: e(2) p)
  with l show ?thesis by simp
next
  case False
  let ?m = "nat (\<lceil>1 / x\<rceil> - 1)"
  from False assms have inv: "1 < 1 / x"
    by (simp add: field_simps)
  then have "1 < \<lceil>1 / x\<rceil>"
    by (simp only: less_ceiling_iff of_int_1)
  then have c2: "2 \<le> \<lceil>1 / x\<rceil>"
    by linarith
  then have m: "0 < ?m" by simp
  have "0 \<le> \<lceil>1 / x\<rceil> - 1"
    using c2 by linarith
  then have m_int: "int ?m = \<lceil>1 / x\<rceil> - 1"
    by (rule nat_0_le)
  have ce: "1 / x \<le> of_int \<lceil>1 / x\<rceil>" "of_int \<lceil>1 / x\<rceil> - 1 < 1 / x"
    by linarith+
  have up: "1 / x \<le> of_nat ?m + 1"
    using ce(1) m_int by (metis add.commute diff_add_cancel of_int_of_nat_eq of_int_1 of_int_add add.commute)
  have down: "of_nat ?m < 1 / x"
    using ce(2) m_int by (metis of_int_of_nat_eq of_int_1 of_int_diff)
  from bitlen_bounds [OF m] have lo: "2 ^ (bitlen ?m - 1) \<le> ?m" and hi: "?m < 2 ^ bitlen ?m"
    by simp_all
  have b: "0 < bitlen ?m"
    using m by (simp add: bitlen.simps [of ?m])
  have e: "ilog2 x = - int (bitlen ?m)"
    using False by (simp add: ilog2_def)
  have e1: "ilog2 x + 1 = - int (bitlen ?m - 1)"
    using e b by simp
  have "?m + 1 \<le> 2 ^ bitlen ?m"
    using hi by linarith
  then have "(of_nat (?m + 1) :: rat) \<le> of_nat (2 ^ bitlen ?m)"
    by (simp only: of_nat_le_iff)
  then have "of_nat ?m + 1 \<le> (2 ^ bitlen ?m :: rat)"
    by (simp only: of_nat_add of_nat_1 of_nat_power of_nat_numeral)
  with up have "1 / x \<le> 2 ^ bitlen ?m"
    by (rule order_trans)
  with assms have l: "1 / 2 ^ bitlen ?m \<le> x"
    by (simp add: field_simps)
  have "(of_nat (2 ^ (bitlen ?m - 1)) :: rat) \<le> of_nat ?m"
    using lo by (simp only: of_nat_le_iff)
  then have "(2 ^ (bitlen ?m - 1) :: rat) \<le> of_nat ?m"
    by (simp only: of_nat_power of_nat_numeral)
  from this down have "2 ^ (bitlen ?m - 1) < 1 / x"
    by (rule le_less_trans)
  with assms have h: "x < 1 / 2 ^ (bitlen ?m - 1)"
    by (simp add: field_simps)
  have q: "pow2 (- int j) = 1 / 2 ^ j" for j
    by (simp add: pow2_power_int power_int_minus inverse_eq_divide)
  have "pow2 (ilog2 x) = 1 / 2 ^ bitlen ?m"
    by (simp only: e q)
  moreover have "pow2 (ilog2 x + 1) = 1 / 2 ^ (bitlen ?m - 1)"
    by (simp only: e1 q)
  ultimately show ?thesis
    using l h by (simp only: simp_thms)
qed

lemma round_half_even_error: "\<bar>of_int (round_half_even y) - y\<bar> \<le> 1 / 2"
proof -
  define f where "f = (of_int \<lfloor>y\<rfloor> :: rat)"
  have d: "f \<le> y" "y < f + 1"
    unfolding f_def by linarith+
  have r: "of_int (round_half_even y) = f \<and> y - f \<le> 1 / 2
         \<or> of_int (round_half_even y) = f + 1 \<and> 1 / 2 \<le> y - f"
    unfolding round_half_even_def f_def by auto
  then show ?thesis
    using d by (auto simp: abs_le_iff)
qed

text \<open>Rounding to 53 bits changes a positive number by at most the fraction \<open>1 / 2 ^ 53\<close> of it.\<close>

lemma round53_error:
  assumes "0 < x"
  shows "\<bar>round53 x - x\<bar> \<le> x / 2 ^ 53"
proof -
  let ?e = "ilog2 x"
  let ?u = "pow2 (?e - 52)"
  let ?r = "of_int (round_half_even (x / ?u)) :: rat"
  have u: "0 < ?u" by (rule pow2_pos)
  have r: "round53 x = ?r * ?u"
    using assms by (simp add: round53_def)
  have "\<bar>?r * ?u - x\<bar> = \<bar>?r - x / ?u\<bar> * ?u"
  proof -
    have "?r * ?u - x = (?r - x / ?u) * ?u"
      using u by (simp add: field_simps)
    then show ?thesis
      using u by (simp add: abs_mult)
  qed
  also have "\<dots> \<le> 1 / 2 * ?u"
    using round_half_even_error [of "x / ?u"] u by (intro mult_right_mono) simp_all
  also have "\<dots> = pow2 ?e / 2 ^ 53"
  proof -
    have "pow2 52 = 2 ^ 52"
      by (simp add: pow2_def)
    then have "?u = pow2 ?e / 2 ^ 52"
      by (simp only: pow2_diff)
    then show ?thesis by simp
  qed
  also have "\<dots> \<le> x / 2 ^ 53"
    using ilog2_bounds [OF assms] by (simp add: divide_right_mono)
  finally show ?thesis
    by (simp only: r)
qed

lemma show_nat_nonempty: "show_nat n \<noteq> []"
  by (subst show_nat.simps) simp

lemma show_nat_digit: "n < 10 \<Longrightarrow> show_nat n = [of_nat (48 + n)]"
  by (subst show_nat.simps) simp

text \<open>\<open>toFixed(1)\<close> prints the tenths \<open>n\<close> as the digits of \<open>n div 10\<close>, a point and one digit.\<close>

lemma toFixed1_form:
  "toFixed1 x = show_nat (nat \<lfloor>x * 10 + 1 / 2\<rfloor> div 10) @ js ''.''
                @ show_nat (nat \<lfloor>x * 10 + 1 / 2\<rfloor> mod 10)"
proof -
  let ?n = "nat \<lfloor>x * 10 + 1 / 2\<rfloor>"
  have last_digit: "show_nat (?n mod 10) = [of_nat (48 + ?n mod 10)]"
    by (rule show_nat_digit) simp
  show ?thesis
  proof (cases "?n < 10")
    case True
    then have "show_nat ?n = [of_nat (48 + ?n)]" "?n div 10 = 0" "?n mod 10 = ?n"
      by (simp_all add: show_nat_digit)
    then show ?thesis
      by (simp add: toFixed1_def show_nat_digit js_def)
  next
    case False
    then have split: "show_nat ?n = show_nat (?n div 10) @ [of_nat (48 + ?n mod 10)]"
      by (subst show_nat.simps) simp
    obtain a rest where front: "show_nat (?n div 10) = a # rest"
      using show_nat_nonempty [of "?n div 10"] by (cases "show_nat (?n div 10)") auto
    have "toFixed1 x = butlast (show_nat ?n) @ js ''.'' @ [last (show_nat ?n)]"
      unfolding toFixed1_def split front by (cases rest) simp_all
    then show ?thesis
      by (simp add: split last_digit)
  qed
qed

text \<open>
  The two roundings move the pass rate by less than \<open>201 / 2 ^ 53\<close> from the exact
  \<open>100 * p / t\<close>.
\<close>

lemma rate_error:
  fixes p t :: nat
  assumes "0 < p" "p \<le> t"
  shows "\<bar>round53 (round53 (of_nat p / of_nat t) * 100) - 100 * of_nat p / of_nat t\<bar> \<le> 201 / 2 ^ 53"
    and "0 \<le> round53 (round53 (of_nat p / of_nat t) * 100)"
proof -
  let ?q = "of_nat p / of_nat t :: rat"
  let ?a = "round53 ?q"
  let ?b = "round53 (?a * 100)"
  have q: "0 < ?q" "?q \<le> 1"
    using assms by simp_all
  have ea: "\<bar>?a - ?q\<bar> \<le> ?q / 2 ^ 53"
    by (rule round53_error [OF q(1)])
  have "?q / 2 ^ 53 \<le> 1 / 2 ^ 53"
    using q(2) by (simp add: divide_right_mono)
  with ea have ea1: "\<bar>?a - ?q\<bar> \<le> 1 / 2 ^ 53"
    by linarith
  have "?q / 2 ^ 53 < ?q"
    using q(1) by (simp add: field_simps)
  with ea have a: "0 < ?a"
    by linarith
  from ea1 q(2) have a2: "?a \<le> 1 + 1 / 2 ^ 53"
    by linarith
  have a100: "0 < ?a * 100"
    using a by simp
  have eb: "\<bar>?b - ?a * 100\<bar> \<le> ?a * 100 / 2 ^ 53"
    by (rule round53_error [OF a100])
  have "?a * 100 / 2 ^ 53 \<le> (1 + 1 / 2 ^ 53) * 100 / 2 ^ 53"
    using a2 by (simp add: divide_right_mono)
  with eb have eb1: "\<bar>?b - ?a * 100\<bar> \<le> (1 + 1 / 2 ^ 53) * 100 / 2 ^ 53"
    by linarith
  have "(1 + 1 / 2 ^ 53) * 100 / 2 ^ 53 + 100 * (1 / 2 ^ 53) \<le> (201 / 2 ^ 53 :: rat)"
    by simp
  with eb1 ea1 have "\<bar>?b - 100 * ?q\<bar> \<le> 201 / 2 ^ 53"
    by linarith
  then show "\<bar>?b - 100 * of_nat p / of_nat t\<bar> \<le> 201 / 2 ^ 53"
    by simp
  have "?a * 100 / 2 ^ 53 < ?a * 100"
    using a by (simp add: field_simps)
  with eb a100 show "0 \<le> ?b"
    by linarith
qed

text \<open>
  For a total below \<open>2 ^ 32\<close> (the length of a JavaScript array) the printed pass rate is
  the exact \<open>100 * p / t\<close> rounded to a nearest tenth.
\<close>

lemma passRate_nearest_tenth:
  fixes p t :: nat
  assumes "0 < t" "p \<le> t" "t < 2 ^ 32"
  shows "\<exists>n. passRate p t = show_nat (n div 10) @ js ''.'' @ show_nat (n mod 10)
           \<and> \<bar>of_nat n / 10 - 100 * of_nat p / of_nat t\<bar> \<le> (1 / 20 :: rat)"
proof (cases "p = 0")
  case True
  have "passRate 0 t = show_nat (0 div 10) @ js ''.'' @ show_nat (0 mod 10)"
    using assms(1) toFixed1_form [of 0] by (simp add: passRate_def round53_def)
  with True show ?thesis
    by (intro exI [of _ 0]) simp
next
  case False
  then have p: "0 < p" by simp
  let ?b = "round53 (round53 (of_nat p / of_nat t) * 100)"
  let ?N = "\<lfloor>?b * 10 + 1 / 2\<rfloor>"
  let ?T = "of_nat t :: rat"
  let ?P = "of_nat p :: rat"
  from rate_error [OF p assms(2)] have err: "\<bar>?b - 100 * ?P / ?T\<bar> \<le> 201 / 2 ^ 53"
    and b: "0 \<le> ?b"
    by simp_all
  have "t \<le> 2 ^ 32"
    using assms(3) by simp
  then have "?T \<le> of_nat (2 ^ 32)"
    by (simp only: of_nat_le_iff)
  then have T32: "?T \<le> 2 ^ 32"
    by simp
  have T: "0 < ?T" "?T \<le> 2 ^ 32"
    using assms(1) T32 by simp_all
  have N: "0 \<le> ?N"
    using b by simp
  have fl: "of_int ?N \<le> ?b * 10 + 1 / 2" "?b * 10 + 1 / 2 < of_int ?N + 1"
    by linarith+
  define X where "X = ?b * ?T"
  define Y where "Y = of_int ?N * ?T"
  have "\<bar>X - 100 * ?P\<bar> = \<bar>?b - 100 * ?P / ?T\<bar> * ?T"
  proof -
    have "X - 100 * ?P = (?b - 100 * ?P / ?T) * ?T"
      using T(1) by (simp add: X_def field_simps)
    then show ?thesis
      using T(1) by (simp add: abs_mult)
  qed
  also have "\<dots> \<le> 201 / 2 ^ 53 * ?T"
    using err T(1) by (intro mult_right_mono) simp_all
  also have "\<dots> \<le> 201 / 2 ^ 53 * 2 ^ 32"
    using T(2) by (intro mult_left_mono) simp_all
  also have "\<dots> < 1 / 20"
    by simp
  finally have bT: "\<bar>X - 100 * ?P\<bar> < 1 / 20" .
  have scaled: "(?b * 10 + 1 / 2) * ?T = 10 * X + ?T / 2" "(of_int ?N + 1) * ?T = Y + ?T"
    by (simp_all add: X_def Y_def algebra_simps)
  have "Y \<le> (?b * 10 + 1 / 2) * ?T"
    unfolding Y_def using fl(1) T(1) by (intro mult_right_mono) simp_all
  then have up: "Y \<le> 10 * X + ?T / 2"
    by (simp only: scaled)
  have "(?b * 10 + 1 / 2) * ?T < (of_int ?N + 1) * ?T"
    using fl(2) T(1) by (intro mult_strict_right_mono) simp_all
  then have down: "10 * X + ?T / 2 < Y + ?T"
    by (simp only: scaled)
  have hi: "2 * (of_int ?N * ?T) < 2000 * ?P + ?T + 1"
    using up bT unfolding Y_def [symmetric] by linarith
  have lo: "2000 * ?P - ?T - 1 < 2 * (of_int ?N * ?T)"
    using down bT unfolding Y_def [symmetric] by linarith
  have "(of_int (2 * (?N * int t)) :: rat) < of_int (2000 * int p + int t + 1)"
    using hi by simp
  then have "2 * (?N * int t) < 2000 * int p + int t + 1"
    by (simp only: of_int_less_iff)
  then have hi_int: "2 * (?N * int t) \<le> 2000 * int p + int t"
    by linarith
  have "(of_int (2000 * int p - int t - 1) :: rat) < of_int (2 * (?N * int t))"
    using lo by simp
  then have "2000 * int p - int t - 1 < 2 * (?N * int t)"
    by (simp only: of_int_less_iff)
  then have lo_int: "2000 * int p - int t \<le> 2 * (?N * int t)"
    by linarith
  have "(of_int (2 * (?N * int t)) :: rat) \<le> of_int (2000 * int p + int t)"
    using hi_int by (simp only: of_int_le_iff)
  then have hi_rat: "2 * (of_int ?N * ?T) \<le> 2000 * ?P + ?T"
    by simp
  have "(of_int (2000 * int p - int t) :: rat) \<le> of_int (2 * (?N * int t))"
    using lo_int by (simp only: of_int_le_iff)
  then have lo_rat: "2000 * ?P - ?T \<le> 2 * (of_int ?N * ?T)"
    by simp
  have near: "\<bar>of_int ?N / 10 - 100 * ?P / ?T\<bar> \<le> 1 / 20"
  proof -
    have "of_int ?N / 10 - 100 * ?P / ?T = (2 * (of_int ?N * ?T) - 2000 * ?P) / (20 * ?T)"
      using T(1) by (simp add: field_simps)
    moreover have "\<bar>(2 * (of_int ?N * ?T) - 2000 * ?P) / (20 * ?T)\<bar> \<le> 1 / 20"
      using hi_rat lo_rat T(1) by (simp add: abs_le_iff field_simps)
    ultimately show ?thesis by simp
  qed
  have n: "(of_nat (nat ?N) :: rat) = of_int ?N"
    using N by simp
  have "passRate p t = show_nat (nat ?N div 10) @ js ''.'' @ show_nat (nat ?N mod 10)"
    using assms(1) toFixed1_form [of ?b] by (simp add: passRate_def)
  with near show ?thesis
    by (intro exI [of _ "nat ?N"]) (simp only: n simp_thms)
qed

lemma passed_count_le: "passed_count rs \<le> length rs"
  by (simp add: passed_count_def)

lemma pass_rate_output:
  "map_of (summary_outputs rs completed) (js ''pass-rate'')
     = Some (Text (passRate (passed_count rs) (length rs)))"
  by (simp add: summary_outputs_def js_def)

text \<open>
  Claim C6. The \<open>pass-rate\<close> output of a completed run is the pass rate of its results:
  \<open>passed / total * 100\<close> in double arithmetic, printed by \<open>toFixed(1)\<close>. It is \<open>0.0\<close>
  for no results and \<open>66.7\<close> for two passed out of three. For every total below \<open>2 ^ 32\<close>
  it consists of the digits of an integer, a point and one digit, and the number it shows is
  \<open>100 * passed / total\<close> rounded to a nearest tenth.
\<close>

theorem C6_pass_rate:
  "(\<forall>rep. run_tests render github fetch exec d cfg tests = Inr rep \<longrightarrow>
       map_of (outputs rep) (js ''pass-rate'')
         = Some (Text (passRate (passed_count (produced rep)) (length (produced rep))))
     \<and> passed_count (produced rep) \<le> length (produced rep))
   \<and> passRate p 0 = js ''0.0''
   \<and> passRate 2 3 = js ''66.7''
   \<and> (0 < t \<and> p \<le> t \<and> t < 2 ^ 32 \<longrightarrow>
        (\<exists>n. passRate p t = show_nat (n div 10) @ js ''.'' @ show_nat (n mod 10)
             \<and> \<bar>of_nat n / 10 - 100 * of_nat p / of_nat t\<bar> \<le> (1 / 20 :: rat)))"
proof (intro conjI allI impI)
  fix rep
  assume run: "run_tests render github fetch exec d cfg tests = Inr rep"
  from run_tests_Inr [OF run] obtain rs hf started completed where
    rep: "rep = finish started rs hf completed"
    by blast
  show "map_of (outputs rep) (js ''pass-rate'')
         = Some (Text (passRate (passed_count (produced rep)) (length (produced rep))))"
    unfolding rep by (simp add: finish_def pass_rate_output)
  show "passed_count (produced rep) \<le> length (produced rep)"
    by (rule passed_count_le)
next
  show "passRate p 0 = js ''0.0''"
    by (simp add: passRate_def)
  show "passRate 2 3 = js ''66.7''"
    by code_simp
next
  assume "0 < t \<and> p \<le> t \<and> t < 2 ^ 32"
  then show "\<exists>n. passRate p t = show_nat (n div 10) @ js ''.'' @ show_nat (n mod 10)
             \<and> \<bar>of_nat n / 10 - 100 * of_nat p / of_nat t\<bar> \<le> (1 / 20 :: rat)"
    using passRate_nearest_tenth [of t p] by blast
qed

text \<open>
  Three test cases, the agent fails the second one and continue-on-failure is on: three
  results, two passed, and the output is \<open>66.7\<close>.
\<close>

theorem C6_pass_rate_witness:
  "map_sum id (\<lambda>rep. (length (produced rep), passed_count (produced rep),
                       map_of (outputs rep) (js ''pass-rate'')))
     (run_tests (\<lambda>v. []) (Inl TypeError) (\<lambda>rq. Rejected TypeError)
        (\<lambda>i inv. \<lparr>stdout = (if i = Suc 0 then js ''{\"url\":\"x\",\"success\":false}''
                               else js ''{\"url\":\"x\",\"success\":true}''),
                     stderr = [], elapsed = 5\<rparr>)
        10
        \<lparr>provider = js ''openai'', apiKey = js ''k'', headless = True,
           continueOnFailure = True, dashboardUrl = [], dashboardApiKey = [],
           agentPath = js ''/w''\<rparr>
        [JObj [(js ''url'', JStr (js ''http://x'')), (js ''goal'', JStr (js ''g1''))],
         JObj [(js ''url'', JStr (js ''http://x'')), (js ''goal'', JStr (js ''g2''))],
         JObj [(js ''url'', JStr (js ''http://x'')), (js ''goal'', JStr (js ''g3''))]])
     = Inr (3, 2, Some (Text (js ''66.7'')))
   \<and> (\<exists>n. passRate 2 3 = show_nat (n div 10) @ js ''.'' @ show_nat (n mod 10)
          \<and> \<bar>of_nat n / 10 - 100 * of_nat 2 / of_nat 3\<bar> \<le> (1 / 20 :: rat))"
proof -
  let ?t1 = "JObj [(js ''url'', JStr (js ''http://x'')), (js ''goal'', JStr (js ''g1''))]"
  let ?t2 = "JObj [(js ''url'', JStr (js ''http://x'')), (js ''goal'', JStr (js ''g2''))]"
  let ?t3 = "JObj [(js ''url'', JStr (js ''http://x'')), (js ''goal'', JStr (js ''g3''))]"
  let ?exec = "\<lambda>i (inv::invocation). \<lparr>stdout = (if i = Suc 0 then js ''{\"url\":\"x\",\"success\":false}''
                               else js ''{\"url\":\"x\",\"success\":true}''),
                     stderr = [], elapsed = 5\<rparr>"
  let ?cfg = "\<lparr>provider = js ''openai'', apiKey = js ''k'', headless = True,
           continueOnFailure = True, dashboardUrl = [], dashboardApiKey = [],
           agentPath = js ''/w''\<rparr>"
  let ?run = "run_tests (\<lambda>v. []) (Inl TypeError) (\<lambda>rq. Rejected TypeError) ?exec 10 ?cfg [?t1, ?t2, ?t3]"
  let ?r1 = "\<lparr>url = JStr (js ''http://x''), goal = JStr (js ''g1''), success = JBool True,
                reason = JNull, error = JNull, steps = JArr [], violations = JArr [],
                duration = 5\<rparr>"
  let ?r2 = "\<lparr>url = JStr (js ''http://x''), goal = JStr (js ''g2''), success = JBool False,
                reason = JNull, error = JNull, steps = JArr [], violations = JArr [],
                duration = 5\<rparr>"
  let ?r3 = "\<lparr>url = JStr (js ''http://x''), goal = JStr (js ''g3''), success = JBool True,
                reason = JNull, error = JNull, steps = JArr [], violations = JArr [],
                duration = 5\<rparr>"
  note c6 = C6_pass_rate [where render = "\<lambda>v. []" and github = "Inl TypeError"
      and fetch = "\<lambda>rq. Rejected TypeError" and exec = ?exec and d = 10 and cfg = ?cfg
      and tests = "[?t1, ?t2, ?t3]" and p = 2 and t = 3]
  have e: "run_test ?exec ?cfg JNull \<lparr>url = JStr (js ''http://x''), goal = JStr (js ''g1'')\<rparr> 0 = ?r1"
    "run_test ?exec ?cfg JNull \<lparr>url = JStr (js ''http://x''), goal = JStr (js ''g2'')\<rparr> (Suc 0) = ?r2"
    "run_test ?exec ?cfg JNull \<lparr>url = JStr (js ''http://x''), goal = JStr (js ''g3'')\<rparr> (Suc (Suc 0)) = ?r3"
    by (simp_all add: run_test_def runSingleTest_def result_of_passing_output result_of_failing_output)
  have loop: "run_loop ?exec ?cfg JNull [?t1, ?t2, ?t3] 0 [] False = Inr ([?r1, ?r2, ?r3], True)"
    by (simp add: run_loop.simps passedReason_def failReason_def js_or_def to_config_object e)
  have run: "?run = Inr (finish [] [?r1, ?r2, ?r3] True ([], None))"
    by (simp add: run_tests_def start_phase_def complete_phase_def loop)
  have counts: "length [?r1, ?r2, ?r3] = 3" "passed_count [?r1, ?r2, ?r3] = 2"
    by (simp_all add: passed_count_def)
  from c6 run have "map_of (outputs (finish [] [?r1, ?r2, ?r3] True ([], None))) (js ''pass-rate'')
      = Some (Text (passRate (passed_count (produced (finish [] [?r1, ?r2, ?r3] True ([], None))))
                      (length (produced (finish [] [?r1, ?r2, ?r3] True ([], None))))))"
    by blast
  then have "map_of (outputs (finish [] [?r1, ?r2, ?r3] True ([], None))) (js ''pass-rate'')
      = Some (Text (passRate 2 3))"
    by (simp only: produced_finish counts)
  moreover from c6 have rate: "passRate 2 3 = js ''66.7''"
    by blast
  ultimately have "map_sum id (\<lambda>rep. (length (produced rep), passed_count (produced rep),
                       map_of (outputs rep) (js ''pass-rate''))) ?run
      = Inr (3, 2, Some (Text (js ''66.7'')))"
    by (simp only: run map_sum.simps produced_finish counts)
  moreover have bounds: "(0::nat) < 3 \<and> (2::nat) \<le> 3 \<and> (3::nat) < 2 ^ 32"
    by simp
  from c6 bounds have "\<exists>n. passRate 2 3 = show_nat (n div 10) @ js ''.'' @ show_nat (n mod 10)
          \<and> \<bar>of_nat n / 10 - 100 * of_nat 2 / of_nat 3\<bar> \<le> (1 / 20 :: rat)"
    by blast
  ultimately show ?thesis
    by blast
qed

end
